theory Spec2Isabelle
  imports Complex_Main
begin

section \<open>Values shared by the cache, the limiter and the handler\<close>

subsection \<open>Numbers and strings\<close>

text \<open>\<open>Number.prototype.toString\<close> on integers, and \<open>String.prototype.padStart\<close> with a
  one-character filler.  Prices are JavaScript numbers that the code only copies,
  compares, takes the minimum of and prints; the model takes them to be whole numbers,
  which \<open>toString\<close> prints as decimal numerals.\<close>

definition digit_char :: "nat \<Rightarrow> char" where
  "digit_char n = ''0123456789'' ! (n mod 10)"

fun nat_toString :: "nat \<Rightarrow> string" where
  "nat_toString n =
     (if n < 10 then [digit_char n] else nat_toString (n div 10) @ [digit_char (n mod 10)])"

declare nat_toString.simps [simp del]

definition int_toString :: "int \<Rightarrow> string" where
  "int_toString i = (if i < 0 then CHR ''-'' # nat_toString (nat (- i)) else nat_toString (nat i))"

definition padStart :: "nat \<Rightarrow> char \<Rightarrow> string \<Rightarrow> string" where
  "padStart targetLength c s = replicate (targetLength - length s) c @ s"

text \<open>\<open>String.prototype.includes\<close>, and \<open>String.prototype.replace\<close> with a string
  pattern, which replaces the first occurrence only.\<close>

fun str_includes :: "string \<Rightarrow> string \<Rightarrow> bool" where
  "str_includes [] sub = (sub = [])"
| "str_includes (c # cs) sub = (take (length sub) (c # cs) = sub \<or> str_includes cs sub)"

fun str_replace :: "string \<Rightarrow> string \<Rightarrow> string \<Rightarrow> string" where
  "str_replace [] pat rep = (if pat = [] then rep else [])"
| "str_replace (c # cs) pat rep =
     (if take (length pat) (c # cs) = pat then rep @ drop (length pat) (c # cs)
      else c # str_replace cs pat rep)"

subsection \<open>Dates\<close>

text \<open>A \<open>Date\<close> in the server's local time, given by what its getters return
  (\<open>getMonth\<close> counts from 0).  The upstream's time stamps are local ISO strings such as
  \<open>2025-07-26T08:00:00\<close>; a \<open>js_date\<close> is what \<open>new Date\<close> makes of one.  \<open>getTime_less a b\<close>
  is \<open>a.getTime() < b.getTime()\<close>: local time stamps are ordered as their components
  are.\<close>

record js_date =
  getFullYear :: nat
  getMonth :: nat
  getDate :: nat
  getHours :: nat
  getMinutes :: nat
  getSeconds :: nat

fun lex_less :: "nat list \<Rightarrow> nat list \<Rightarrow> bool" where
  "lex_less (x # xs) (y # ys) = (x < y \<or> (x = y \<and> lex_less xs ys))"
| "lex_less _ _ = False"

definition getTime_less :: "js_date \<Rightarrow> js_date \<Rightarrow> bool" where
  "getTime_less a b =
     lex_less [getFullYear a, getMonth a, getDate a, getHours a, getMinutes a, getSeconds a]
              [getFullYear b, getMonth b, getDate b, getHours b, getMinutes b, getSeconds b]"

definition formatDateKey :: "js_date \<Rightarrow> string" where
  "formatDateKey date =
     (let year = getFullYear date;
          month = padStart 2 CHR ''0'' (nat_toString (getMonth date + 1));
          day = padStart 2 CHR ''0'' (nat_toString (getDate date))
      in nat_toString year @ ''-'' @ month @ ''-'' @ day)"

text \<open>\<open>toLocaleString("de-DE", ...)\<close> with two-digit day, month, hour, minute and second
  and a numeric year: \<open>26.07.2025, 08:00:00\<close>.\<close>

definition toLocaleString_de :: "js_date \<Rightarrow> string" where
  "toLocaleString_de d =
     padStart 2 CHR ''0'' (nat_toString (getDate d)) @ ''.'' @
     padStart 2 CHR ''0'' (nat_toString (getMonth d + 1)) @ ''.'' @
     nat_toString (getFullYear d) @ '', '' @
     padStart 2 CHR ''0'' (nat_toString (getHours d)) @ '':'' @
     padStart 2 CHR ''0'' (nat_toString (getMinutes d)) @ '':'' @
     padStart 2 CHR ''0'' (nat_toString (getSeconds d))"

subsection \<open>Results\<close>

text \<open>The element type of \<open>allIntervals\<close>, \<open>TrainResult\<close> and \<open>TrainResults\<close>.  The time
  stamps of a \<open>TrainResult\<close> are \<open>None\<close> where the code stores the empty string, and
  \<open>allIntervals\<close> is \<open>None\<close> where the property is absent.  A \<open>TrainResults\<close> object and a
  \<open>Map\<close> are lists of key and value in insertion order, each key once.\<close>

record IntervalRecord =
  iv_preis :: int
  iv_abfahrtsZeitpunkt :: js_date
  iv_ankunftsZeitpunkt :: js_date
  iv_abfahrtsOrt :: string
  iv_ankunftsOrt :: string
  iv_info :: string
  iv_umstiegsAnzahl :: nat

record TrainResult =
  preis :: int
  info :: string
  abfahrtsZeitpunkt :: "js_date option"
  ankunftsZeitpunkt :: "js_date option"
  allIntervals :: "IntervalRecord list option"

type_synonym TrainResults = "(string \<times> TrainResult) list"

primrec Map_set :: "'k \<Rightarrow> 'v \<Rightarrow> ('k \<times> 'v) list \<Rightarrow> ('k \<times> 'v) list" where
  "Map_set k v [] = [(k, v)]"
| "Map_set k v (p # ps) = (if fst p = k then (k, v) # ps else p # Map_set k v ps)"

definition Map_delete :: "'k \<Rightarrow> ('k \<times> 'v) list \<Rightarrow> ('k \<times> 'v) list" where
  "Map_delete k m = filter (\<lambda>p. fst p \<noteq> k) m"

definition Map_get :: "('k \<times> 'v) list \<Rightarrow> 'k \<Rightarrow> 'v option" where
  "Map_get m k = map_of m k"

definition Map_keys :: "('k \<times> 'v) list \<Rightarrow> 'k list" where
  "Map_keys m = map fst m"


section \<open>The global rate limiter (class GlobalRateLimiter of search-prices/route.ts)\<close>

text \<open>
  JavaScript runs the limiter on one event loop, so every method body and every callback
  runs to completion before the next one starts.  The model is a state record and one
  function per method or callback.  \<open>Date.now()\<close> is the argument \<open>now\<close>.

  The fields \<open>queue\<close> to \<open>processingTimer\<close> are the fields of the class.  The remaining
  fields record what the JavaScript runtime holds for the class: the calls whose
  \<open>execute()\<close> promise is still pending, each with the \<open>retryCount\<close> argument of the
  \<open>executeRequestWithRetry\<close> invocation awaiting it (\<open>running\<close>), the pending re-queue
  timeouts with their delay (\<open>retryTimers\<close>), the promises settled through
  \<open>request.resolve\<close> and \<open>request.reject\<close>, and two logs: every \<open>queue.push\<close> in order
  (\<open>pushed\<close>) and every call started by \<open>processNextRequest\<close> in order (\<open>started\<close>).
\<close>

record QueuedRequest =
  req_id :: string
  req_timestamp :: int

text \<open>What \<open>await request.execute()\<close> yields: a value, or a thrown value that is an
  \<open>Error\<close> with a message (\<open>Some\<close>) or not an \<open>Error\<close> at all (\<open>None\<close>).\<close>

datatype exec_result = Returned string | Thrown "string option"

record limiter =
  queue :: "QueuedRequest list"
  lastApiCallStart :: int
  minInterval :: int
  activeRequests :: int
  rateLimitHits :: nat
  lastRateLimitTime :: int
  successfulRequests :: nat
  processingTimer :: "int option"
  running :: "(QueuedRequest \<times> nat) list"
  retryTimers :: "(QueuedRequest \<times> int) list"
  resolved :: "(QueuedRequest \<times> string) list"
  rejected :: "(QueuedRequest \<times> string option) list"
  pushed :: "QueuedRequest list"
  started :: "QueuedRequest list"

definition maxConcurrentRequests :: int where
  "maxConcurrentRequests = 1"

definition baseInterval :: int where
  "baseInterval = 1000"

definition maxInterval :: int where
  "maxInterval = 10000"

definition maxRetries :: nat where
  "maxRetries = 3"

definition new_GlobalRateLimiter :: limiter where
  "new_GlobalRateLimiter =
     \<lparr> queue = [], lastApiCallStart = 0, minInterval = 1000, activeRequests = 0,
       rateLimitHits = 0, lastRateLimitTime = 0, successfulRequests = 0,
       processingTimer = None, running = [], retryTimers = [], resolved = [],
       rejected = [], pushed = [], started = [] \<rparr>"

text \<open>\<open>Math.round\<close>: the nearest integer, a half rounded up.  The intervals are integers
  below \<open>2^51\<close>, so their products with 1.5 and 0.75 are exact in binary64 and the
  rationals compute what the doubles do.\<close>

definition Math_round :: "rat \<Rightarrow> int" where
  "Math_round x = \<lfloor>x + 1 / 2\<rfloor>"

definition isRateLimitError :: "string option \<Rightarrow> bool" where
  "isRateLimitError err =
     (case err of
        None \<Rightarrow> False
      | Some message \<Rightarrow> str_includes message ''429'' \<or> str_includes message ''Too Many Requests'')"

definition scheduleNextProcessing :: "int \<Rightarrow> limiter \<Rightarrow> limiter" where
  "scheduleNextProcessing now s =
     (if processingTimer s \<noteq> None \<or> queue s = [] \<or> activeRequests s \<ge> maxConcurrentRequests
      then s
      else
        let timeSinceLastStart = now - lastApiCallStart s;
            delay = max 0 (minInterval s - timeSinceLastStart)
        in s\<lparr>processingTimer := Some delay\<rparr>)"

text \<open>\<open>processNextRequest\<close> calls \<open>executeRequestWithRetry(request)\<close> with one argument,
  so the invocation runs with the default \<open>retryCount = 0\<close>; it is suspended at
  \<open>await request.execute()\<close> until the call settles.\<close>

definition processNextRequest :: "int \<Rightarrow> limiter \<Rightarrow> limiter" where
  "processNextRequest now s =
     (case queue s of
        [] \<Rightarrow> s
      | request # rest \<Rightarrow>
          if activeRequests s \<ge> maxConcurrentRequests then s
          else
            scheduleNextProcessing now
              (s\<lparr>queue := rest,
                 lastApiCallStart := now,
                 activeRequests := activeRequests s + 1,
                 running := running s @ [(request, 0)],
                 started := started s @ [request]\<rparr>))"

definition onRateLimitHit :: "int \<Rightarrow> limiter \<Rightarrow> limiter" where
  "onRateLimitHit now s =
     (let newInterval = min (of_int (minInterval s) * (3 / 2)) (of_int maxInterval)
      in s\<lparr>rateLimitHits := rateLimitHits s + 1,
            lastRateLimitTime := now,
            successfulRequests := 0,
            minInterval := Math_round newInterval\<rparr>)"

definition onRequestSuccess :: "limiter \<Rightarrow> limiter" where
  "onRequestSuccess s =
     (let s1 = s\<lparr>successfulRequests := successfulRequests s + 1\<rparr>
      in if successfulRequests s1 \<ge> 3 \<and> minInterval s1 > baseInterval then
           let newInterval = max (of_int (minInterval s1) * (3 / 4)) (of_int baseInterval)
           in if newInterval < of_int (minInterval s1)
              then s1\<lparr>minInterval := Math_round newInterval, successfulRequests := 0\<rparr>
              else s1
         else s1)"

definition calculateRetryDelay :: "nat \<Rightarrow> int" where
  "calculateRetryDelay retryCount = min (2000 * 2 ^ retryCount) 8000"

text \<open>The part of \<open>executeRequestWithRetry\<close> after \<open>await request.execute()\<close>.\<close>

definition executeRequestWithRetry :: "int \<Rightarrow> QueuedRequest \<Rightarrow> nat \<Rightarrow> exec_result \<Rightarrow> limiter \<Rightarrow> limiter" where
  "executeRequestWithRetry now request retryCount res s =
     (case res of
        Returned result \<Rightarrow>
          (let s1 = onRequestSuccess s
           in s1\<lparr>resolved := resolved s1 @ [(request, result)]\<rparr>)
      | Thrown err \<Rightarrow>
          if isRateLimitError err then
            (let s1 = onRateLimitHit now s
             in if retryCount < maxRetries
                then s1\<lparr>retryTimers := retryTimers s1 @ [(request, calculateRetryDelay retryCount)]\<rparr>
                else s1\<lparr>rejected := rejected s1 @ [(request, err)]\<rparr>)
          else s\<lparr>rejected := rejected s @ [(request, err)]\<rparr>)"

text \<open>The \<open>finally\<close> callback that \<open>processNextRequest\<close> attaches.\<close>

definition finally_callback :: "int \<Rightarrow> limiter \<Rightarrow> limiter" where
  "finally_callback now s = scheduleNextProcessing now (s\<lparr>activeRequests := activeRequests s - 1\<rparr>)"

text \<open>The \<open>setTimeout\<close> callback of the re-queue.\<close>

definition retry_callback :: "int \<Rightarrow> QueuedRequest \<Rightarrow> limiter \<Rightarrow> limiter" where
  "retry_callback now request s =
     (let retryRequest = request\<lparr>req_timestamp := now\<rparr>
      in scheduleNextProcessing now
           (s\<lparr>queue := queue s @ [retryRequest], pushed := pushed s @ [retryRequest]\<rparr>))"

definition addToQueue :: "int \<Rightarrow> string \<Rightarrow> limiter \<Rightarrow> limiter" where
  "addToQueue now requestId s =
     (let queuedRequest = \<lparr>req_id = requestId, req_timestamp = now\<rparr>
      in scheduleNextProcessing now
           (s\<lparr>queue := queue s @ [queuedRequest], pushed := pushed s @ [queuedRequest]\<rparr>))"

text \<open>What the event loop can run next.  An event that is not enabled (a timer that is
  not pending, a call that is not running) leaves the state as it is.  When a call
  settles, the rest of \<open>executeRequestWithRetry\<close> and the \<open>finally\<close> callback run as
  microtasks of one turn of the event loop, before any timer or any new request.\<close>

datatype event =
    AddToQueue string
  | ProcessingTimerFires
  | ExecuteSettles nat exec_result
  | RetryTimerFires nat

definition remove_nth :: "nat \<Rightarrow> 'a list \<Rightarrow> 'a list" where
  "remove_nth i xs = take i xs @ drop (Suc i) xs"

definition step :: "int \<times> event \<Rightarrow> limiter \<Rightarrow> limiter" where
  "step ne s =
     (case ne of (now, ev) \<Rightarrow>
        (case ev of
           AddToQueue requestId \<Rightarrow> addToQueue now requestId s
         | ProcessingTimerFires \<Rightarrow>
             (if processingTimer s = None then s
              else processNextRequest now (s\<lparr>processingTimer := None\<rparr>))
         | ExecuteSettles i res \<Rightarrow>
             (if i < length (running s) then
                (case running s ! i of (request, retryCount) \<Rightarrow>
                   finally_callback now
                     (executeRequestWithRetry now request retryCount res
                        (s\<lparr>running := remove_nth i (running s)\<rparr>)))
              else s)
         | RetryTimerFires i \<Rightarrow>
             (if i < length (retryTimers s) then
                retry_callback now (fst (retryTimers s ! i))
                  (s\<lparr>retryTimers := remove_nth i (retryTimers s)\<rparr>)
              else s)))"

definition run :: "(int \<times> event) list \<Rightarrow> limiter \<Rightarrow> limiter" where
  "run evs s = foldl (\<lambda>s ne. step ne s) s evs"


subsection \<open>Invariants of the limiter and a call that is always rejected\<close>

definition interval_inv :: "limiter \<Rightarrow> bool" where
  "interval_inv s = (baseInterval \<le> minInterval s \<and> minInterval s \<le> maxInterval)"

definition queue_inv :: "limiter \<Rightarrow> bool" where
  "queue_inv s =
     (activeRequests s = int (length (running s)) \<and> length (running s) \<le> 1 \<and>
      pushed s = started s @ queue s \<and>
      map snd (running s) = replicate (length (running s)) 0 \<and>
      map snd (retryTimers s) = replicate (length (retryTimers s)) 2000)"

definition rate_limited_cycle :: "int \<Rightarrow> (int \<times> event) list" where
  "rate_limited_cycle t =
     [(t, ProcessingTimerFires),
      (t, ExecuteSettles 0 (Thrown (Some ''HTTP 429: ''))),
      (t, RetryTimerFires 0)]"

definition waiting_again :: "limiter \<Rightarrow> nat \<Rightarrow> bool" where
  "waiting_again s n =
     (map req_id (queue s) = [''r''] \<and> running s = [] \<and> retryTimers s = [] \<and>
      activeRequests s = 0 \<and> processingTimer s \<noteq> None \<and> rejected s = [] \<and>
      resolved s = [] \<and> length (started s) = n \<and> rateLimitHits s = n)"

section \<open>The result cache\<close>

record CacheEntry =
  data :: "TrainResults option"
  timestamp :: int
  ttl :: int

type_synonym cache = "(string \<times> CacheEntry) list"

definition CACHE_TTL :: int where
  "CACHE_TTL = 60 * 60 * 1000"

definition MAX_CACHE_ENTRIES :: nat where
  "MAX_CACHE_ENTRIES = 100000"

text \<open>\<open>getCachedResult\<close> returns the entry's data and the cache, from which it has
  deleted the entry when it had expired.\<close>

definition getCachedResult :: "int \<Rightarrow> string \<Rightarrow> cache \<Rightarrow> TrainResults option \<times> cache" where
  "getCachedResult now cacheKey c =
     (case Map_get c cacheKey of
        None \<Rightarrow> (None, c)
      | Some entry \<Rightarrow>
          let age = now - timestamp entry
          in if age > ttl entry then (None, Map_delete cacheKey c)
             else (data entry, c))"

text \<open>\<open>cache.keys().next().value\<close> is the key inserted first, or \<open>undefined\<close> for an empty
  map; then \<open>typeof oldestKey === 'string'\<close> fails and nothing is deleted.\<close>

definition setCachedResult :: "int \<Rightarrow> string \<Rightarrow> TrainResults option \<Rightarrow> cache \<Rightarrow> cache" where
  "setCachedResult now cacheKey dat c =
     (let c1 = (if length c \<ge> MAX_CACHE_ENTRIES then
                  (case Map_keys c of
                     [] \<Rightarrow> c
                   | oldestKey # _ \<Rightarrow> Map_delete oldestKey c)
                else c)
      in Map_set cacheKey \<lparr>data = dat, timestamp = now, ttl = CACHE_TTL\<rparr> c1)"






text \<open>A cache filled to its capacity, with the keys \<open>k\<close>, \<open>kk\<close>, \<open>kkk\<close>, ... in insertion
  order.\<close>

definition filled_cache :: "nat \<Rightarrow> cache" where
  "filled_cache n =
     map (\<lambda>i. (replicate (Suc i) CHR ''k'', \<lparr>data = None, timestamp = 0, ttl = CACHE_TTL\<rparr>)) [0..<n]"


section \<open>The upstream's intervals and the time filter\<close>

text \<open>
  One element of \<open>data.intervalle\<close>, reduced to what the code reads.  \<open>betrag\<close> is
  \<open>iv.preis.betrag\<close>, or \<open>None\<close> unless \<open>iv.preis\<close> is an object with that property.
  \<open>verbindungsAbschnitte\<close> is \<open>iv.verbindungen[0].verbindung.verbindungsAbschnitte\<close>, or
  \<open>None\<close> when a link of that chain is missing.  \<open>umstiegsAnzahl\<close> is
  \<open>iv.verbindungen[0].verbindung.umstiegsAnzahl || 0\<close>.
\<close>

record Abschnitt =
  ab_abfahrtsZeitpunkt :: js_date
  ab_ankunftsZeitpunkt :: js_date
  ab_abfahrtsOrt :: string
  ab_ankunftsOrt :: string

record Intervall =
  betrag :: "int option"
  verbindungsAbschnitte :: "Abschnitt list option"
  umstiegsAnzahl :: nat

text \<open>
  The arguments \<open>abfahrtAb\<close> and \<open>ankunftBis\<close>: absent or empty (\<open>Unset\<close>, falsy), the
  string \<open>hh:mm\<close> (\<open>Clock hh mm\<close>), or another non-empty string (\<open>Unparsable\<close>).

  \<open>Date_1970 day hh mm\<close> is \<open>new Date(`1970-01-0${day + 1}T${hh}:${mm}:00`)\<close> in minutes
  since local midnight of 1970-01-01, or \<open>None\<close> for an invalid date, whose comparisons
  are all false.
\<close>

datatype time_filter = Unset | Unparsable | Clock nat nat

definition truthy_filter :: "time_filter \<Rightarrow> bool" where
  "truthy_filter f = (f \<noteq> Unset)"

definition Date_1970 :: "nat \<Rightarrow> nat \<Rightarrow> nat \<Rightarrow> int option" where
  "Date_1970 day hh mm =
     (if (hh < 24 \<and> mm < 60) \<or> (hh = 24 \<and> mm = 0)
      then Some (int (1440 * day + 60 * hh + mm)) else None)"

definition filter_Date :: "time_filter \<Rightarrow> int option" where
  "filter_Date f = (case f of Clock hh mm \<Rightarrow> Date_1970 0 hh mm | _ \<Rightarrow> None)"

definition Date_less :: "int option \<Rightarrow> int option \<Rightarrow> bool" where
  "Date_less a b = (case (a, b) of (Some x, Some y) \<Rightarrow> x < y | _ \<Rightarrow> False)"

definition istNachtverbindung :: "js_date \<Rightarrow> js_date \<Rightarrow> bool" where
  "istNachtverbindung ersteAbfahrt letzteAnkunft =
     (getTime_less letzteAnkunft ersteAbfahrt \<or> getDate letzteAnkunft \<noteq> getDate ersteAbfahrt)"

text \<open>The callback that \<open>filterByTime\<close> passes to \<open>intervals.filter\<close>.\<close>

definition filterByTime_keeps :: "time_filter \<Rightarrow> time_filter \<Rightarrow> Intervall \<Rightarrow> bool" where
  "filterByTime_keeps abfahrtAb ankunftBis interval =
     (case verbindungsAbschnitte interval of
        None \<Rightarrow> True
      | Some [] \<Rightarrow> True
      | Some (a # as) \<Rightarrow>
          let ersteAbfahrt = ab_abfahrtsZeitpunkt a;
              letzteAnkunft = ab_ankunftsZeitpunkt (last (a # as))
          in if truthy_filter abfahrtAb \<and>
                Date_less (Date_1970 0 (getHours ersteAbfahrt) (getMinutes ersteAbfahrt))
                          (filter_Date abfahrtAb)
             then False
             else if truthy_filter ankunftBis \<and>
                Date_less (filter_Date ankunftBis)
                          (if istNachtverbindung ersteAbfahrt letzteAnkunft
                           then Date_1970 1 (getHours letzteAnkunft) (getMinutes letzteAnkunft)
                           else Date_1970 0 (getHours letzteAnkunft) (getMinutes letzteAnkunft))
             then False
             else True)"

definition filterByTime :: "Intervall list \<Rightarrow> time_filter \<Rightarrow> time_filter \<Rightarrow> Intervall list" where
  "filterByTime intervals abfahrtAb ankunftBis =
     (if \<not> truthy_filter abfahrtAb \<and> \<not> truthy_filter ankunftBis then intervals
      else filter (filterByTime_keeps abfahrtAb ankunftBis) intervals)"

text \<open>An overnight connection, Berlin 26 July 23:00 to Hamburg 27 July 01:00, and a
  connection of one day with the same arrival time of day.\<close>

definition day_train :: Intervall where
  "day_train =
     \<lparr>betrag = Some 39,
      verbindungsAbschnitte = Some
        [\<lparr>ab_abfahrtsZeitpunkt = \<lparr>getFullYear = 2025, getMonth = 6, getDate = 27,
                                   getHours = 0, getMinutes = 10, getSeconds = 0\<rparr>,
          ab_ankunftsZeitpunkt = \<lparr>getFullYear = 2025, getMonth = 6, getDate = 27,
                                   getHours = 1, getMinutes = 0, getSeconds = 0\<rparr>,
          ab_abfahrtsOrt = ''Berlin Hbf'', ab_ankunftsOrt = ''Hamburg Hbf''\<rparr>],
      umstiegsAnzahl = 0\<rparr>"


definition night_train :: Intervall where
  "night_train =
     \<lparr>betrag = Some 39,
      verbindungsAbschnitte = Some
        [\<lparr>ab_abfahrtsZeitpunkt = \<lparr>getFullYear = 2025, getMonth = 6, getDate = 26,
                                   getHours = 23, getMinutes = 0, getSeconds = 0\<rparr>,
          ab_ankunftsZeitpunkt = \<lparr>getFullYear = 2025, getMonth = 6, getDate = 27,
                                   getHours = 1, getMinutes = 0, getSeconds = 0\<rparr>,
          ab_abfahrtsOrt = ''Berlin Hbf'', ab_ankunftsOrt = ''Hamburg Hbf''\<rparr>],
      umstiegsAnzahl = 0\<rparr>"


section \<open>Cache keys and getBestPrice\<close>

subsection \<open>Loosely typed values and JSON.stringify\<close>

text \<open>
  The fields of the request body and of \<open>config\<close> have the type \<open>any\<close>.  \<open>js_value\<close> has
  the values such a field can hold after \<open>request.json()\<close> and after the conversions of
  the handler.  \<open>truthy\<close>, \<open>js_or\<close> (\<open>||\<close>) and \<open>strict_eq\<close> (\<open>===\<close>) are JavaScript's.
\<close>

datatype js_value = JUndefined | JNull | JBool bool | JNumber int | JNaN | JString string

fun truthy :: "js_value \<Rightarrow> bool" where
  "truthy JUndefined = False"
| "truthy JNull = False"
| "truthy (JBool b) = b"
| "truthy (JNumber n) = (n \<noteq> 0)"
| "truthy JNaN = False"
| "truthy (JString s) = (s \<noteq> [])"

definition js_or :: "js_value \<Rightarrow> js_value \<Rightarrow> js_value" where
  "js_or a b = (if truthy a then a else b)"

definition strict_eq :: "js_value \<Rightarrow> js_value \<Rightarrow> bool" where
  "strict_eq a b = (a = b \<and> a \<noteq> JNaN)"

text \<open>\<open>JSON.stringify\<close> of an object given by its properties in insertion order: a
  property whose value is \<open>undefined\<close> is left out, \<open>NaN\<close> is written \<open>null\<close>, and a string
  is quoted with the quotation mark, the backslash and the control characters escaped.\<close>

definition hex_digit :: "nat \<Rightarrow> char" where
  "hex_digit n = ''0123456789abcdef'' ! (n mod 16)"

definition JSON_quote_char :: "char \<Rightarrow> string" where
  "JSON_quote_char c =
     (if c = CHR 0x22 then [CHR 0x5C, CHR 0x22]
      else if c = CHR 0x5C then [CHR 0x5C, CHR 0x5C]
      else if c = CHR 0x08 then [CHR 0x5C, CHR ''b'']
      else if c = CHR 0x0C then [CHR 0x5C, CHR ''f'']
      else if c = CHR 0x0A then [CHR 0x5C, CHR ''n'']
      else if c = CHR 0x0D then [CHR 0x5C, CHR ''r'']
      else if c = CHR 0x09 then [CHR 0x5C, CHR ''t'']
      else if (of_char c :: nat) < 32 then
        [CHR 0x5C, CHR ''u'', CHR ''0'', CHR ''0'',
         hex_digit (of_char c div 16), hex_digit (of_char c mod 16)]
      else [c])"

definition JSON_quote :: "string \<Rightarrow> string" where
  "JSON_quote s = CHR 0x22 # concat (map JSON_quote_char s) @ [CHR 0x22]"

fun JSON_value :: "js_value \<Rightarrow> string option" where
  "JSON_value JUndefined = None"
| "JSON_value JNull = Some ''null''"
| "JSON_value (JBool b) = Some (if b then ''true'' else ''false'')"
| "JSON_value (JNumber n) = Some (int_toString n)"
| "JSON_value JNaN = Some ''null''"
| "JSON_value (JString s) = Some (JSON_quote s)"

fun JSON_properties :: "(string \<times> js_value) list \<Rightarrow> string list" where
  "JSON_properties [] = []"
| "JSON_properties ((name, v) # ps) =
     (case JSON_value v of
        None \<Rightarrow> JSON_properties ps
      | Some s \<Rightarrow> (JSON_quote name @ '':'' @ s) # JSON_properties ps)"

fun join_comma :: "string list \<Rightarrow> string" where
  "join_comma [] = []"
| "join_comma [s] = s"
| "join_comma (s # t # ss) = s @ '','' @ join_comma (t # ss)"

definition JSON_stringify :: "(string \<times> js_value) list \<Rightarrow> string" where
  "JSON_stringify params = ''{'' @ join_comma (JSON_properties params) @ ''}''"

definition generateCacheKey :: "(string \<times> js_value) list \<Rightarrow> string" where
  "generateCacheKey params = JSON_stringify params"

subsection \<open>The configuration of one day\<close>

text \<open>The object that the handler passes to \<open>getBestPrice\<close>.  \<open>maximaleUmstiege\<close> is a
  number or \<open>NaN\<close>, the result of \<open>Number.parseInt\<close>.\<close>

record config =
  abfahrtsHalt :: string
  ankunftsHalt :: string
  startStationNormalizedId :: string
  zielStationNormalizedId :: string
  anfrageDatum :: js_date
  alter :: js_value
  ermaessigungArt :: js_value
  ermaessigungKlasse :: js_value
  klasse :: js_value
  maximaleUmstiege :: js_value
  schnelleVerbindungen :: js_value
  nurDeutschlandTicketVerbindungen :: js_value
  abfahrtAb :: time_filter
  ankunftBis :: time_filter

text \<open>The cache key that \<open>getBestPrice\<close> builds.\<close>

definition getBestPrice_cacheKey :: "config \<Rightarrow> string" where
  "getBestPrice_cacheKey config =
     generateCacheKey
       [(''startStationId'', JString (startStationNormalizedId config)),
        (''zielStationId'', JString (zielStationNormalizedId config)),
        (''date'', JString (formatDateKey (anfrageDatum config))),
        (''alter'', alter config),
        (''ermaessigungArt'', js_or (ermaessigungArt config) (JString ''KEINE_ERMAESSIGUNG'')),
        (''ermaessigungKlasse'', js_or (ermaessigungKlasse config) (JString ''KLASSENLOS'')),
        (''klasse'', klasse config),
        (''maximaleUmstiege'', maximaleUmstiege config),
        (''schnelleVerbindungen'',
           JBool (strict_eq (schnelleVerbindungen config) (JBool True) \<or>
                  strict_eq (schnelleVerbindungen config) (JString ''true''))),
        (''nurDeutschlandTicketVerbindungen'',
           JBool (strict_eq (nurDeutschlandTicketVerbindungen config) (JBool True) \<or>
                  strict_eq (nurDeutschlandTicketVerbindungen config) (JString ''true'')))]"

subsection \<open>The upstream's answer\<close>

text \<open>
  What \<open>await globalRateLimiter.addToQueue(...)\<close> settles with, by the cases that
  \<open>getBestPrice\<close> tells apart: the promise is rejected with an error (its message, or
  \<open>None\<close> for a value that is not an \<open>Error\<close>); the text contains
  \<open>Preisauskunft nicht moeglich\<close>; the text is not JSON; the JSON has no \<open>intervalle\<close>;
  or the JSON's \<open>intervalle\<close>.
\<close>

datatype api_result =
    ApiRejected "string option"
  | PreisauskunftNichtMoeglich
  | JsonParseError
  | KeineIntervalle
  | Intervalle "Intervall list"

record best_price =
  result :: "TrainResults option"
  wasApiCall :: bool

subsection \<open>Building results from intervals\<close>

definition make_info :: "Abschnitt \<Rightarrow> Abschnitt \<Rightarrow> string" where
  "make_info firstConnection lastConnection =
     toLocaleString_de (ab_abfahrtsZeitpunkt firstConnection) @ '' '' @
     ab_abfahrtsOrt firstConnection @ '' -> '' @
     toLocaleString_de (ab_ankunftsZeitpunkt lastConnection) @ '' '' @
     ab_ankunftsOrt lastConnection"

text \<open>The record that both loops of \<open>getBestPrice\<close> push for an interval with a price
  and a non-empty list of sections; \<open>None\<close> for an interval that they skip.\<close>

definition to_IntervalRecord :: "Intervall \<Rightarrow> IntervalRecord option" where
  "to_IntervalRecord iv =
     (case betrag iv of
        None \<Rightarrow> None
      | Some newPreis \<Rightarrow>
          (case verbindungsAbschnitte iv of
             None \<Rightarrow> None
           | Some [] \<Rightarrow> None
           | Some (firstConnection # rest) \<Rightarrow>
               let lastConnection = last (firstConnection # rest)
               in Some \<lparr>iv_preis = newPreis,
                        iv_abfahrtsZeitpunkt = ab_abfahrtsZeitpunkt firstConnection,
                        iv_ankunftsZeitpunkt = ab_ankunftsZeitpunkt lastConnection,
                        iv_abfahrtsOrt = ab_abfahrtsOrt firstConnection,
                        iv_ankunftsOrt = ab_ankunftsOrt lastConnection,
                        iv_info = make_info firstConnection lastConnection,
                        iv_umstiegsAnzahl = umstiegsAnzahl iv\<rparr>))"

text \<open>The first loop over \<open>data.intervalle\<close>.\<close>

definition allIntervalsForCache :: "Intervall list \<Rightarrow> IntervalRecord list" where
  "allIntervalsForCache intervalle = List.map_filter to_IntervalRecord intervalle"

text \<open>The second loop, over the filtered intervals.  \<open>preise\<close> is an object used as a
  dictionary from \<open>info + newPreis\<close> to the price: an assignment to a key that is present
  overwrites its value.\<close>

record bestConnection =
  bc_preis :: int
  bc_connection :: Abschnitt
  bc_ankunftsZeitpunkt :: js_date
  bc_info :: string

record loop_state =
  preise :: "(string \<times> int) list"
  allIntervals_acc :: "IntervalRecord list"
  best :: "bestConnection option"

definition process_interval :: "loop_state \<Rightarrow> Intervall \<Rightarrow> loop_state" where
  "process_interval st iv =
     (case betrag iv of
        None \<Rightarrow> st
      | Some newPreis \<Rightarrow>
          (case verbindungsAbschnitte iv of
             None \<Rightarrow> st
           | Some [] \<Rightarrow> st
           | Some (firstConnection # rest) \<Rightarrow>
               let lastConnection = last (firstConnection # rest);
                   info = make_info firstConnection lastConnection
               in \<lparr>preise = Map_set (info @ int_toString newPreis) newPreis (preise st),
                   allIntervals_acc = allIntervals_acc st @
                     [\<lparr>iv_preis = newPreis,
                       iv_abfahrtsZeitpunkt = ab_abfahrtsZeitpunkt firstConnection,
                       iv_ankunftsZeitpunkt = ab_ankunftsZeitpunkt lastConnection,
                       iv_abfahrtsOrt = ab_abfahrtsOrt firstConnection,
                       iv_ankunftsOrt = ab_ankunftsOrt lastConnection,
                       iv_info = info,
                       iv_umstiegsAnzahl = umstiegsAnzahl iv\<rparr>],
                   best =
                     (if (case best st of None \<Rightarrow> True | Some b \<Rightarrow> newPreis < bc_preis b)
                      then Some \<lparr>bc_preis = newPreis, bc_connection = firstConnection,
                                 bc_ankunftsZeitpunkt = ab_ankunftsZeitpunkt lastConnection,
                                 bc_info = info\<rparr>
                      else best st)\<rparr>))"

definition process_intervals :: "Intervall list \<Rightarrow> loop_state" where
  "process_intervals filteredIntervalle =
     foldl process_interval \<lparr>preise = [], allIntervals_acc = [], best = None\<rparr> filteredIntervalle"

text \<open>\<open>Math.min\<close> of a first argument and more.\<close>

definition Math_min :: "int \<Rightarrow> int list \<Rightarrow> int" where
  "Math_min x xs = foldl min x xs"

subsection \<open>getBestPrice\<close>

text \<open>The messages of the results without a price.  The umlauts are the two bytes of
  their UTF-8 encoding.\<close>

definition Keine_Verbindungen_im_Zeitraum :: string where
  "Keine_Verbindungen_im_Zeitraum = ''Keine Verbindungen im gew'' @ [CHR 0xC3, CHR 0xA4] @ ''hlten Zeitraum!''"

definition Kein_Bestpreis_verfuegbar :: string where
  "Kein_Bestpreis_verfuegbar = ''Kein Bestpreis verf'' @ [CHR 0xC3, CHR 0xBC] @ ''gbar!''"

definition Keine_gueltigen_Preise :: string where
  "Keine_gueltigen_Preise = ''Keine g'' @ [CHR 0xC3, CHR 0xBC] @ ''ltigen Preise gefunden!''"

definition no_price_result :: "string \<Rightarrow> TrainResult" where
  "no_price_result message =
     \<lparr>preis = 0, info = message, abfahrtsZeitpunkt = None, ankunftsZeitpunkt = None,
      allIntervals = None\<rparr>"

text \<open>The interval that the cache-hit path rebuilds from an element of the stored
  \<open>allIntervals\<close> to pass it to \<open>filterByTime\<close>.\<close>

definition cached_interval :: "IntervalRecord \<Rightarrow> Intervall" where
  "cached_interval interval =
     \<lparr>betrag = Some (iv_preis interval),
      verbindungsAbschnitte = Some
        [\<lparr>ab_abfahrtsZeitpunkt = iv_abfahrtsZeitpunkt interval,
          ab_ankunftsZeitpunkt = iv_ankunftsZeitpunkt interval,
          ab_abfahrtsOrt = iv_abfahrtsOrt interval,
          ab_ankunftsOrt = iv_ankunftsOrt interval\<rparr>],
      umstiegsAnzahl = 0\<rparr>"

text \<open>\<open>iv.preis.betrag\<close> of a rebuilt interval, which always carries a price.\<close>

definition fi_betrag :: "Intervall \<Rightarrow> int" where
  "fi_betrag fi = (case betrag fi of Some p \<Rightarrow> p | None \<Rightarrow> 0)"

text \<open>The time stamps of the single section of a rebuilt interval.\<close>

definition fiConnection_times :: "Intervall \<Rightarrow> (js_date \<times> js_date) option" where
  "fiConnection_times fi =
     (case verbindungsAbschnitte fi of
        Some (a # _) \<Rightarrow> Some (ab_abfahrtsZeitpunkt a, ab_ankunftsZeitpunkt a)
      | _ \<Rightarrow> None)"

text \<open>The branch \<open>if (cachedResult)\<close>: the time filter applied to the cached data.\<close>

definition getBestPrice_cached :: "string \<Rightarrow> time_filter \<Rightarrow> time_filter \<Rightarrow> TrainResults \<Rightarrow> TrainResults" where
  "getBestPrice_cached tag ab bis cachedResult =
     (case Map_get cachedResult tag of
        None \<Rightarrow> cachedResult
      | Some cachedData \<Rightarrow>
          (case allIntervals cachedData of
             None \<Rightarrow> cachedResult
           | Some cachedIntervals \<Rightarrow>
               (case filterByTime (map cached_interval cachedIntervals) ab bis of
                  [] \<Rightarrow>
                    [(tag, \<lparr>preis = 0, info = Keine_Verbindungen_im_Zeitraum,
                            abfahrtsZeitpunkt = None, ankunftsZeitpunkt = None,
                            allIntervals = Some []\<rparr>)]
                | fi # fis \<Rightarrow>
                    let filteredIntervals = fi # fis;
                        minPreis = Math_min (fi_betrag fi) (map fi_betrag fis);
                        bestInterval = find (\<lambda>interval. iv_preis interval = minPreis) cachedIntervals;
                        filteredAllIntervals =
                          sort_key iv_preis
                            (filter (\<lambda>interval.
                               list_ex (\<lambda>fi. fiConnection_times fi =
                                  Some (iv_abfahrtsZeitpunkt interval, iv_ankunftsZeitpunkt interval))
                                 filteredIntervals)
                               cachedIntervals)
                    in [(tag, \<lparr>preis = minPreis,
                               info = (case bestInterval of None \<Rightarrow> [] | Some b \<Rightarrow> iv_info b),
                               abfahrtsZeitpunkt = map_option iv_abfahrtsZeitpunkt bestInterval,
                               ankunftsZeitpunkt = map_option iv_ankunftsZeitpunkt bestInterval,
                               allIntervals = Some filteredAllIntervals\<rparr>)])))"

text \<open>The part of the cache-miss path after the cache has been written: the time filter
  and the second loop applied to the upstream's intervals.\<close>

definition getBestPrice_fresh :: "string \<Rightarrow> time_filter \<Rightarrow> time_filter \<Rightarrow> Intervall list \<Rightarrow> TrainResults" where
  "getBestPrice_fresh tag ab bis intervalle =
     (case filterByTime intervalle ab bis of
        [] \<Rightarrow>
          [(tag, \<lparr>preis = 0, info = Keine_Verbindungen_im_Zeitraum,
                  abfahrtsZeitpunkt = None, ankunftsZeitpunkt = None,
                  allIntervals = Some []\<rparr>)]
      | iv # ivs \<Rightarrow>
          let st = process_intervals (iv # ivs)
          in (case preise st of
                [] \<Rightarrow> [(tag, no_price_result Keine_gueltigen_Preise)]
              | (key, p) # rest \<Rightarrow>
                  let minPreis = Math_min p (map snd rest);
                      infoKey = find (\<lambda>kv. snd kv = minPreis) (preise st);
                      info = (case infoKey of
                                None \<Rightarrow> []
                              | Some kv \<Rightarrow> str_replace (fst kv) (int_toString minPreis) [])
                  in [(tag, \<lparr>preis = minPreis,
                             info = info,
                             abfahrtsZeitpunkt =
                               map_option (\<lambda>b. ab_abfahrtsZeitpunkt (bc_connection b)) (best st),
                             ankunftsZeitpunkt =
                               map_option (\<lambda>b. ab_ankunftsZeitpunkt (bc_connection b)) (best st),
                             allIntervals = Some (sort_key iv_preis (allIntervals_acc st))\<rparr>)]))"

text \<open>
  \<open>getBestPrice\<close>.  \<open>now\<close> is the time of the cache lookup and \<open>later\<close> the time at which
  the upstream's answer is stored.  \<open>api\<close> is what the queued call settles with; the
  cache-hit path does not read it.  The function returns its result and the cache.
\<close>

definition getBestPrice :: "int \<Rightarrow> int \<Rightarrow> config \<Rightarrow> api_result \<Rightarrow> cache \<Rightarrow> best_price \<times> cache" where
  "getBestPrice now later config api c =
     (let tag = formatDateKey (anfrageDatum config);
          cacheKey = getBestPrice_cacheKey config
      in case getCachedResult now cacheKey c of
           (Some cachedResult, c1) \<Rightarrow>
             (\<lparr>result = Some (getBestPrice_cached tag (abfahrtAb config) (ankunftBis config) cachedResult),
               wasApiCall = False\<rparr>, c1)
         | (None, c1) \<Rightarrow>
             (case api of
                ApiRejected err \<Rightarrow>
                  let res = [(tag, no_price_result
                               (''Fetch Error: '' @ (case err of Some message \<Rightarrow> message | None \<Rightarrow> ''Unknown'')))]
                  in (\<lparr>result = Some res, wasApiCall = True\<rparr>,
                      Map_set cacheKey \<lparr>data = Some res, timestamp = later, ttl = 60 * 1000\<rparr> c1)
              | PreisauskunftNichtMoeglich \<Rightarrow>
                  let res = [(tag, no_price_result Kein_Bestpreis_verfuegbar)]
                  in (\<lparr>result = Some res, wasApiCall = True\<rparr>,
                      setCachedResult later cacheKey (Some res) c1)
              | JsonParseError \<Rightarrow>
                  (\<lparr>result = Some [(tag, no_price_result ''JSON Parse Error'')], wasApiCall = True\<rparr>, c1)
              | KeineIntervalle \<Rightarrow>
                  let res = [(tag, no_price_result ''Keine Intervalle gefunden!'')]
                  in (\<lparr>result = Some res, wasApiCall = True\<rparr>,
                      setCachedResult later cacheKey (Some res) c1)
              | Intervalle intervalle \<Rightarrow>
                  let fullResult =
                        [(tag, \<lparr>preis = 0, info = [], abfahrtsZeitpunkt = None,
                                ankunftsZeitpunkt = None,
                                allIntervals = Some (sort_key iv_preis (allIntervalsForCache intervalle))\<rparr>)]
                  in (\<lparr>result = Some (getBestPrice_fresh tag (abfahrtAb config) (ankunftBis config) intervalle),
                       wasApiCall = True\<rparr>,
                      setCachedResult later cacheKey (Some fullResult) c1)))"

text \<open>The key under which the second loop files the price of an interval.\<close>

definition preise_key :: "IntervalRecord \<Rightarrow> string" where
  "preise_key r = iv_info r @ int_toString (iv_preis r)"

text \<open>No two of the records have the same key and different prices.\<close>

definition keys_tell_prices :: "IntervalRecord list \<Rightarrow> bool" where
  "keys_tell_prices recs =
     list_all (\<lambda>x. list_all (\<lambda>y. preise_key x = preise_key y \<longrightarrow> iv_preis x = iv_preis y) recs) recs"


section \<open>The POST handler\<close>

text \<open>
  What the handler reads.  A station is what \<open>searchBahnhof\<close> returned.  The body holds
  the destructured fields; \<open>body_maximaleUmstiege_parsed\<close> is
  \<open>Number.parseInt(maximaleUmstiege || "0")\<close>, a number or \<open>NaN\<close>, and
  \<open>body_dayLimit_parsed\<close> is \<open>Number.parseInt(dayLimit || "3")\<close>, \<open>None\<close> for \<open>NaN\<close>.
\<close>

record station =
  station_id :: string
  normalizedId :: string
  station_name :: string

record request_body =
  body_alter :: js_value
  body_ermaessigungArt :: js_value
  body_ermaessigungKlasse :: js_value
  body_klasse :: js_value
  body_schnelleVerbindungen :: js_value
  body_nurDeutschlandTicketVerbindungen :: js_value
  body_maximaleUmstiege_parsed :: js_value
  body_dayLimit_parsed :: "int option"
  body_abfahrtAb :: time_filter
  body_ankunftBis :: time_filter






text \<open>The cache key of the pre-classification loop, which fills \<open>dayStatusList\<close>.\<close>

definition probe_cacheKey :: "station \<Rightarrow> station \<Rightarrow> request_body \<Rightarrow> js_date \<Rightarrow> string" where
  "probe_cacheKey startStation zielStation body testDate =
     generateCacheKey
       [(''startStationId'', JString (normalizedId startStation)),
        (''zielStationId'', JString (normalizedId zielStation)),
        (''date'', JString (formatDateKey testDate)),
        (''alter'', body_alter body),
        (''ermaessigungArt'', js_or (body_ermaessigungArt body) (JString ''KEINE_ERMAESSIGUNG'')),
        (''ermaessigungKlasse'', js_or (body_ermaessigungKlasse body) (JString ''KLASSENLOS'')),
        (''klasse'', body_klasse body),
        (''maximaleUmstiege'', body_maximaleUmstiege_parsed body),
        (''schnelleVerbindungen'',
           JBool (strict_eq (body_schnelleVerbindungen body) (JBool True) \<or>
                  strict_eq (body_schnelleVerbindungen body) (JString ''true''))),
        (''nurDeutschlandTicketVerbindungen'',
           JBool (strict_eq (body_nurDeutschlandTicketVerbindungen body) (JBool True) \<or>
                  strict_eq (body_nurDeutschlandTicketVerbindungen body) (JString ''true'')))]"

definition probe_isCached :: "int \<Rightarrow> cache \<Rightarrow> string \<Rightarrow> bool" where
  "probe_isCached now c cacheKey =
     (case Map_get c cacheKey of
        None \<Rightarrow> False
      | Some cachedEntry \<Rightarrow> now - timestamp cachedEntry \<le> ttl cachedEntry)"

text \<open>The object that the per-day loop passes to \<open>getBestPrice\<close>.\<close>

definition day_config :: "station \<Rightarrow> station \<Rightarrow> request_body \<Rightarrow> js_date \<Rightarrow> config" where
  "day_config startStation zielStation body currentDate =
     \<lparr>abfahrtsHalt = station_id startStation,
      ankunftsHalt = station_id zielStation,
      startStationNormalizedId = normalizedId startStation,
      zielStationNormalizedId = normalizedId zielStation,
      anfrageDatum = currentDate,
      alter = body_alter body,
      ermaessigungArt = body_ermaessigungArt body,
      ermaessigungKlasse = body_ermaessigungKlasse body,
      klasse = body_klasse body,
      maximaleUmstiege = body_maximaleUmstiege_parsed body,
      schnelleVerbindungen =
        JBool (strict_eq (body_schnelleVerbindungen body) (JBool True) \<or>
               strict_eq (body_schnelleVerbindungen body) (JString ''1'')),
      nurDeutschlandTicketVerbindungen =
        JBool (strict_eq (body_nurDeutschlandTicketVerbindungen body) (JBool True) \<or>
               strict_eq (body_nurDeutschlandTicketVerbindungen body) (JString ''1'')),
      abfahrtAb = body_abfahrtAb body,
      ankunftBis = body_ankunftBis body\<rparr>"






text \<open>A request: Berlin to Hamburg from 26 July 2025, with the fast-connection flag in
  the representation \<open>flag\<close>.\<close>

definition Berlin :: station where
  "Berlin = \<lparr>station_id = ''A=1@O=Berlin Hbf@p=1750000000@'', normalizedId = ''A=1@O=Berlin Hbf@'',
             station_name = ''Berlin Hbf''\<rparr>"

definition Hamburg :: station where
  "Hamburg = \<lparr>station_id = ''A=1@O=Hamburg Hbf@p=1750000000@'', normalizedId = ''A=1@O=Hamburg Hbf@'',
              station_name = ''Hamburg Hbf''\<rparr>"

definition july_26 :: js_date where
  "july_26 = \<lparr>getFullYear = 2025, getMonth = 6, getDate = 26,
              getHours = 0, getMinutes = 0, getSeconds = 0\<rparr>"

definition example_body :: "js_value \<Rightarrow> request_body" where
  "example_body flag =
     \<lparr>body_alter = JString ''ERWACHSENER'',
      body_ermaessigungArt = JUndefined,
      body_ermaessigungKlasse = JUndefined,
      body_klasse = JString ''KLASSE_2'',
      body_schnelleVerbindungen = flag,
      body_nurDeutschlandTicketVerbindungen = JBool False,
      body_maximaleUmstiege_parsed = JNumber 0,
      body_dayLimit_parsed = Some 3,
      body_abfahrtAb = Unset,
      body_ankunftBis = Unset\<rparr>"

text \<open>The prices of a response by day.\<close>

definition day_prices :: "best_price \<Rightarrow> (string \<times> int) list" where
  "day_prices response =
     (case result response of
        None \<Rightarrow> []
      | Some r \<Rightarrow> map (\<lambda>kv. (fst kv, preis (snd kv))) r)"

text \<open>Two intervals of one day with the same departure and arrival times: for 9 to the
  stop \<open>Hamburg ZOB 12\<close> and for 29 to the stop \<open>Hamburg ZOB 1\<close>.\<close>

definition morning_connection :: "string \<Rightarrow> Abschnitt" where
  "morning_connection stop =
     \<lparr>ab_abfahrtsZeitpunkt = \<lparr>getFullYear = 2025, getMonth = 6, getDate = 26,
                              getHours = 8, getMinutes = 0, getSeconds = 0\<rparr>,
      ab_ankunftsZeitpunkt = \<lparr>getFullYear = 2025, getMonth = 6, getDate = 26,
                              getHours = 10, getMinutes = 0, getSeconds = 0\<rparr>,
      ab_abfahrtsOrt = ''Berlin Hbf'', ab_ankunftsOrt = stop\<rparr>"

definition two_stops :: "Intervall list" where
  "two_stops =
     [\<lparr>betrag = Some 9, verbindungsAbschnitte = Some [morning_connection ''Hamburg ZOB 12''],
       umstiegsAnzahl = 0\<rparr>,
      \<lparr>betrag = Some 29, verbindungsAbschnitte = Some [morning_connection ''Hamburg ZOB 1''],
       umstiegsAnzahl = 0\<rparr>]"






section \<open>Properties of the number and date formats\<close>

lemma less_10_cases: "k < 10 \<Longrightarrow> k \<in> {0, 1, 2, 3, 4, 5, 6, 7, 8, 9::nat}"
  by auto

lemma of_char_digit: "k < 10 \<Longrightarrow> of_char (''0123456789'' ! k) = (48 + k :: nat)"
  using less_10_cases [of k] by auto

lemma of_char_digit_char: "of_char (digit_char n) = (48 + n mod 10 :: nat)"
  by (simp add: digit_char_def of_char_digit)

lemma digit_char_inj: "digit_char a = digit_char b \<Longrightarrow> a mod 10 = b mod 10"
proof -
  assume "digit_char a = digit_char b"
  then have "(of_char (digit_char a) :: nat) = of_char (digit_char b)" by simp
  then show ?thesis by (simp add: of_char_digit_char)
qed



lemma length_nat_toString_small: "n < 10 \<Longrightarrow> length (nat_toString n) = 1"
  by (subst nat_toString.simps) simp

lemma length_nat_toString_two: "10 \<le> n \<Longrightarrow> n < 100 \<Longrightarrow> length (nat_toString n) = 2"
  by (subst nat_toString.simps) (simp add: length_nat_toString_small)




section \<open>Properties of the rate limiter\<close>

lemma Math_round_three_halves: "Math_round (of_int x * 3 / 2) = (3 * x + 1) div 2"
proof -
  have "(of_int x * 3 / 2 + 1 / 2 :: rat) = of_int (3 * x + 1) / of_int 2" by simp
  then show ?thesis unfolding Math_round_def by (simp only: floor_divide_of_int_eq)
qed

lemma Math_round_three_quarters: "Math_round (of_int x * 3 / 4) = (3 * x + 2) div 4"
proof -
  have "(of_int x * 3 / 4 + 1 / 2 :: rat) = of_int (3 * x + 2) / of_int 4" by simp
  then show ?thesis unfolding Math_round_def by (simp only: floor_divide_of_int_eq)
qed

lemma Math_round_of_int: "Math_round (of_int x) = x"
  unfolding Math_round_def by linarith

lemma Math_round_numeral: "Math_round (numeral n) = numeral n"
  using Math_round_of_int [of "numeral n"] by simp

lemma Math_round_mono: "mono Math_round"
  unfolding Math_round_def mono_def by (simp add: floor_mono)

lemma Math_round_min: "Math_round (min a b) = min (Math_round a) (Math_round b)"
  by (simp add: min_of_mono Math_round_mono)

lemma Math_round_max: "Math_round (max a b) = max (Math_round a) (Math_round b)"
  by (simp add: max_of_mono Math_round_mono)

lemma minInterval_onRateLimitHit:
  "minInterval (onRateLimitHit now s) = min ((3 * minInterval s + 1) div 2) maxInterval"
  by (simp add: onRateLimitHit_def Let_def Math_round_min Math_round_three_halves Math_round_of_int)

lemma successfulRequests_onRateLimitHit: "successfulRequests (onRateLimitHit now s) = 0"
  by (simp add: onRateLimitHit_def Let_def)

lemma minInterval_onRequestSuccess:
  "minInterval (onRequestSuccess s) =
     (if 3 \<le> successfulRequests s + 1 \<and> baseInterval < minInterval s
      then max ((3 * minInterval s + 2) div 4) baseInterval
      else minInterval s)"
  by (simp add: onRequestSuccess_def Let_def Math_round_max
      Math_round_three_quarters Math_round_numeral baseInterval_def)

lemma successfulRequests_onRequestSuccess:
  "successfulRequests (onRequestSuccess s) =
     (if 3 \<le> successfulRequests s + 1 \<and> baseInterval < minInterval s
      then 0 else successfulRequests s + 1)"
  by (simp add: onRequestSuccess_def Let_def baseInterval_def)

lemma hit_bounds:
  "baseInterval \<le> x \<Longrightarrow> x \<le> maxInterval \<Longrightarrow>
     x \<le> min ((3 * x + 1) div 2) maxInterval \<and> min ((3 * x + 1) div 2) maxInterval \<le> maxInterval"
  unfolding baseInterval_def maxInterval_def by simp

lemma success_bounds:
  "baseInterval \<le> x \<Longrightarrow>
     baseInterval \<le> max ((3 * x + 2) div 4) baseInterval \<and> max ((3 * x + 2) div 4) baseInterval \<le> x"
  unfolding baseInterval_def by simp

lemma success_strict:
  "baseInterval < x \<Longrightarrow> max ((3 * x + 2) div 4) baseInterval < x"
  unfolding baseInterval_def by simp

lemma scheduleNextProcessing_fields [simp]:
  "queue (scheduleNextProcessing now s) = queue s"
  "minInterval (scheduleNextProcessing now s) = minInterval s"
  "activeRequests (scheduleNextProcessing now s) = activeRequests s"
  "running (scheduleNextProcessing now s) = running s"
  "retryTimers (scheduleNextProcessing now s) = retryTimers s"
  "pushed (scheduleNextProcessing now s) = pushed s"
  "started (scheduleNextProcessing now s) = started s"
  "rejected (scheduleNextProcessing now s) = rejected s"
  "resolved (scheduleNextProcessing now s) = resolved s"
  "rateLimitHits (scheduleNextProcessing now s) = rateLimitHits s"
  "successfulRequests (scheduleNextProcessing now s) = successfulRequests s"
  by (simp_all add: scheduleNextProcessing_def Let_def)

lemma onRateLimitHit_fields [simp]:
  "queue (onRateLimitHit now s) = queue s"
  "activeRequests (onRateLimitHit now s) = activeRequests s"
  "running (onRateLimitHit now s) = running s"
  "retryTimers (onRateLimitHit now s) = retryTimers s"
  "pushed (onRateLimitHit now s) = pushed s"
  "started (onRateLimitHit now s) = started s"
  "rejected (onRateLimitHit now s) = rejected s"
  "resolved (onRateLimitHit now s) = resolved s"
  "processingTimer (onRateLimitHit now s) = processingTimer s"
  "rateLimitHits (onRateLimitHit now s) = rateLimitHits s + 1"
  by (simp_all add: onRateLimitHit_def Let_def)

lemma onRequestSuccess_fields [simp]:
  "queue (onRequestSuccess s) = queue s"
  "activeRequests (onRequestSuccess s) = activeRequests s"
  "running (onRequestSuccess s) = running s"
  "retryTimers (onRequestSuccess s) = retryTimers s"
  "pushed (onRequestSuccess s) = pushed s"
  "started (onRequestSuccess s) = started s"
  "rejected (onRequestSuccess s) = rejected s"
  "resolved (onRequestSuccess s) = resolved s"
  "processingTimer (onRequestSuccess s) = processingTimer s"
  "rateLimitHits (onRequestSuccess s) = rateLimitHits s"
  by (simp_all add: onRequestSuccess_def Let_def)

lemma interval_inv_onRateLimitHit: "interval_inv s \<Longrightarrow> interval_inv (onRateLimitHit now s)"
  unfolding interval_inv_def minInterval_onRateLimitHit
  using hit_bounds [of "minInterval s"] by linarith

lemma interval_inv_onRequestSuccess: "interval_inv s \<Longrightarrow> interval_inv (onRequestSuccess s)"
  unfolding interval_inv_def minInterval_onRequestSuccess
  using success_bounds [of "minInterval s"] by (simp split: if_splits)

lemma interval_inv_executeRequestWithRetry:
  "interval_inv s \<Longrightarrow> interval_inv (executeRequestWithRetry now r c res s)"
  using interval_inv_onRateLimitHit [of s now] interval_inv_onRequestSuccess [of s]
  by (simp add: executeRequestWithRetry_def Let_def interval_inv_def split: exec_result.split)

lemma interval_inv_step: "interval_inv s \<Longrightarrow> interval_inv (step ne s)"
proof -
  assume a: "interval_inv s"
  have b: "\<And>f. interval_inv (s\<lparr>running := f\<rparr>)" using a by (simp add: interval_inv_def)
  obtain now ev where ne: "ne = (now, ev)" by (cases ne)
  show ?thesis
  proof (cases ev)
    case (AddToQueue x1)
    then show ?thesis using a ne by (simp add: step_def addToQueue_def Let_def interval_inv_def)
  next
    case ProcessingTimerFires
    then show ?thesis using a ne
      by (simp add: step_def processNextRequest_def interval_inv_def split: list.split)
  next
    case (ExecuteSettles i res)
    then show ?thesis using a ne interval_inv_executeRequestWithRetry [OF b]
      by (simp add: step_def finally_callback_def interval_inv_def split: prod.split)
  next
    case (RetryTimerFires i)
    then show ?thesis using a ne
      by (simp add: step_def retry_callback_def Let_def interval_inv_def)
  qed
qed

lemma interval_inv_new: "interval_inv new_GlobalRateLimiter"
  by (simp add: interval_inv_def new_GlobalRateLimiter_def baseInterval_def maxInterval_def)

lemma run_snoc: "run (evs @ [ne]) s = step ne (run evs s)"
  by (simp add: run_def)

lemma interval_inv_run: "interval_inv (run evs new_GlobalRateLimiter)"
  by (induction evs rule: rev_induct) (simp_all add: run_snoc interval_inv_step, simp add: run_def interval_inv_new)

lemma calculateRetryDelay_0: "calculateRetryDelay 0 = 2000"
  by (simp add: calculateRetryDelay_def)

lemma queue_inv_new: "queue_inv new_GlobalRateLimiter"
  by (simp add: queue_inv_def new_GlobalRateLimiter_def)

lemma queue_inv_scheduleNextProcessing: "queue_inv (scheduleNextProcessing now s) = queue_inv s"
  by (simp add: queue_inv_def)

lemma queue_inv_addToQueue: "queue_inv s \<Longrightarrow> queue_inv (addToQueue now requestId s)"
  by (simp add: addToQueue_def Let_def queue_inv_scheduleNextProcessing) (simp add: queue_inv_def)

lemma queue_inv_retry_callback:
  "queue_inv s \<Longrightarrow> i < length (retryTimers s) \<Longrightarrow>
     queue_inv (retry_callback now r (s\<lparr>retryTimers := remove_nth i (retryTimers s)\<rparr>))"
proof -
  assume a: "queue_inv s" and i: "i < length (retryTimers s)"
  from a have "map snd (retryTimers s) = replicate (length (retryTimers s)) 2000"
    by (simp add: queue_inv_def)
  then have "\<forall>x \<in> set (map snd (retryTimers s)). x = 2000"
    by (metis in_set_replicate)
  then have "\<forall>x \<in> set (map snd (remove_nth i (retryTimers s))). x = 2000"
    unfolding remove_nth_def by (auto dest: in_set_takeD in_set_dropD)
  then have "map snd (remove_nth i (retryTimers s)) = replicate (length (remove_nth i (retryTimers s))) 2000"
    by (metis length_map replicate_length_same)
  then show ?thesis using a
    by (simp add: retry_callback_def Let_def queue_inv_scheduleNextProcessing) (simp add: queue_inv_def)
qed

lemma queue_inv_processNextRequest:
  assumes "queue_inv s"
  shows "queue_inv (processNextRequest now (s\<lparr>processingTimer := None\<rparr>))"
proof (cases "queue s")
  case Nil
  then show ?thesis using assms by (simp add: processNextRequest_def queue_inv_def)
next
  case (Cons r rest)
  show ?thesis
  proof (cases "activeRequests s \<ge> maxConcurrentRequests")
    case True
    then show ?thesis using assms Cons by (simp add: processNextRequest_def queue_inv_def)
  next
    case False
    then have "running s = []"
      using assms by (cases "running s") (simp_all add: queue_inv_def maxConcurrentRequests_def)
    then show ?thesis
      using assms Cons False
      by (simp add: processNextRequest_def queue_inv_scheduleNextProcessing) (simp add: queue_inv_def)
  qed
qed

lemma queue_inv_settle:
  assumes "queue_inv s" and "i < length (running s)" and "running s ! i = (r, c)"
  shows "queue_inv (finally_callback now
           (executeRequestWithRetry now r c res (s\<lparr>running := remove_nth i (running s)\<rparr>)))"
proof -
  from assms have run1: "running s = [(r, c)]" and i0: "i = 0"
    by (cases "running s"; simp add: queue_inv_def)+
  from assms(1) run1 have c0: "c = 0" by (simp add: queue_inv_def)
  from assms(1) run1 have act: "activeRequests s = 1" by (simp add: queue_inv_def)
  have rem: "remove_nth i (running s) = []" using run1 i0 by (simp add: remove_nth_def)
  show ?thesis
    using assms(1) act
    by (simp add: rem c0 finally_callback_def queue_inv_scheduleNextProcessing)
       (simp add: queue_inv_def executeRequestWithRetry_def Let_def calculateRetryDelay_0
          maxRetries_def replicate_append_same split: exec_result.split)
qed

lemma queue_inv_step: "queue_inv s \<Longrightarrow> queue_inv (step ne s)"
proof -
  assume a: "queue_inv s"
  obtain now ev where ne: "ne = (now, ev)" by (cases ne)
  show ?thesis
  proof (cases ev)
    case (AddToQueue x1)
    then show ?thesis using a ne by (simp add: step_def queue_inv_addToQueue)
  next
    case ProcessingTimerFires
    then show ?thesis using a ne by (simp add: step_def queue_inv_processNextRequest)
  next
    case (ExecuteSettles i res)
    then show ?thesis using a ne queue_inv_settle [OF a]
      by (simp add: step_def split: prod.split)
  next
    case (RetryTimerFires i)
    then show ?thesis using a ne by (simp add: step_def queue_inv_retry_callback)
  qed
qed

lemma queue_inv_run: "queue_inv (run evs new_GlobalRateLimiter)"
proof (induction evs rule: rev_induct)
  case Nil
  show ?case by (simp add: run_def queue_inv_new)
next
  case (snoc ne evs)
  then show ?case by (simp add: run_snoc queue_inv_step)
qed

lemma isRateLimitError_429: "isRateLimitError (Some ''HTTP 429: '')"
  by (simp add: isRateLimitError_def)

lemma run_append: "run (xs @ ys) s = run ys (run xs s)"
  by (simp add: run_def)

lemma run_Cons: "run (x # xs) s = run xs (step x s)"
  by (simp add: run_def)

lemma run_Nil: "run [] s = s"
  by (simp add: run_def)

lemma waiting_again_cycle:
  assumes "waiting_again s n"
  shows "waiting_again (run (rate_limited_cycle t) s) (Suc n)"
proof -
  from assms obtain r where q: "queue s = [r]" and rid: "req_id r = ''r''"
    by (cases "queue s") (auto simp add: waiting_again_def)
  define s1 where "s1 = step (t, ProcessingTimerFires) s"
  define s2 where "s2 = step (t, ExecuteSettles 0 (Thrown (Some ''HTTP 429: ''))) s1"
  define s3 where "s3 = step (t, RetryTimerFires 0) s2"
  have 1: "queue s1 = [] \<and> running s1 = [(r, 0)] \<and> retryTimers s1 = [] \<and> activeRequests s1 = 1
      \<and> processingTimer s1 = None \<and> rejected s1 = [] \<and> resolved s1 = []
      \<and> length (started s1) = Suc n \<and> rateLimitHits s1 = n"
    using assms q unfolding s1_def
    by (auto simp add: waiting_again_def step_def processNextRequest_def maxConcurrentRequests_def
        scheduleNextProcessing_def)
  have 2: "queue s2 = [] \<and> running s2 = [] \<and> retryTimers s2 = [(r, 2000)] \<and> activeRequests s2 = 0
      \<and> processingTimer s2 = None \<and> rejected s2 = [] \<and> resolved s2 = []
      \<and> length (started s2) = Suc n \<and> rateLimitHits s2 = Suc n"
    using 1 unfolding s2_def
    by (simp add: step_def remove_nth_def executeRequestWithRetry_def isRateLimitError_429
        maxRetries_def calculateRetryDelay_0 finally_callback_def
        scheduleNextProcessing_def)
  have 3: "waiting_again s3 (Suc n)"
    using 2 rid unfolding s3_def
    by (simp add: step_def remove_nth_def retry_callback_def Let_def waiting_again_def
        scheduleNextProcessing_def maxConcurrentRequests_def)
  show ?thesis using 3
    by (simp add: rate_limited_cycle_def run_Cons run_Nil s3_def s2_def s1_def)
qed

lemma waiting_again_start: "waiting_again (step (t, AddToQueue ''r'') new_GlobalRateLimiter) 0"
  by (simp add: step_def addToQueue_def Let_def new_GlobalRateLimiter_def waiting_again_def
        scheduleNextProcessing_def maxConcurrentRequests_def)

lemma concat_replicate_Suc: "concat (replicate (Suc n) xs) = concat (replicate n xs) @ xs"
  by (induction n) simp_all

lemma waiting_again_cycles:
  "waiting_again (run ((ta, AddToQueue ''r'') # concat (replicate n (rate_limited_cycle t))) new_GlobalRateLimiter) n"
proof (induction n)
  case 0
  show ?case by (simp add: run_Cons run_Nil waiting_again_start)
next
  case (Suc n)
  have "run ((ta, AddToQueue ''r'') # concat (replicate (Suc n) (rate_limited_cycle t))) new_GlobalRateLimiter
      = run (rate_limited_cycle t) (run ((ta, AddToQueue ''r'') # concat (replicate n (rate_limited_cycle t))) new_GlobalRateLimiter)"
    by (simp only: concat_replicate_Suc run_append append_Cons [symmetric])
  then show ?case using waiting_again_cycle [OF Suc.IH] by simp
qed

text \<open>
  C6: the adaptive minimum interval.  In every state the limiter can reach from its
  initial state, the interval lies between \<open>baseInterval = 1000\<close> and
  \<open>maxInterval = 10000\<close>.  A rate-limit rejection replaces it by the rounded 1.5-fold
  value capped at \<open>maxInterval\<close>, which is never smaller than before and stays within the
  bounds, and resets the success streak to zero.  A success replaces it, once the streak
  reaches 3 and the interval is above \<open>baseInterval\<close>, by the rounded 0.75-fold value
  floored at \<open>baseInterval\<close>, and starts a new streak; otherwise it leaves the interval
  unchanged and lengthens the streak.  In both cases the interval is never larger than
  before and stays within the bounds.
\<close>

theorem adaptive_interval_monotone_and_bounded:
  "(let s = run evs new_GlobalRateLimiter in
      baseInterval = 1000 \<and> maxInterval = 10000 \<and>
      baseInterval \<le> minInterval s \<and> minInterval s \<le> maxInterval \<and>
      minInterval (onRateLimitHit now s) =
        min (Math_round (of_int (minInterval s) * (3 / 2))) maxInterval \<and>
      minInterval s \<le> minInterval (onRateLimitHit now s) \<and>
      minInterval (onRateLimitHit now s) \<le> maxInterval \<and>
      successfulRequests (onRateLimitHit now s) = 0 \<and>
      minInterval (onRequestSuccess s) =
        (if 3 \<le> successfulRequests s + 1 \<and> baseInterval < minInterval s
         then max (Math_round (of_int (minInterval s) * (3 / 4))) baseInterval
         else minInterval s) \<and>
      minInterval (onRequestSuccess s) \<le> minInterval s \<and>
      baseInterval \<le> minInterval (onRequestSuccess s) \<and>
      successfulRequests (onRequestSuccess s) =
        (if 3 \<le> successfulRequests s + 1 \<and> baseInterval < minInterval s
         then 0 else successfulRequests s + 1))"
proof -
  define s where "s = run evs new_GlobalRateLimiter"
  have inv: "baseInterval \<le> minInterval s" "minInterval s \<le> maxInterval"
    using interval_inv_run [of evs] by (simp_all add: s_def interval_inv_def)
  have hit: "minInterval (onRateLimitHit now s) = min ((3 * minInterval s + 1) div 2) maxInterval"
    by (rule minInterval_onRateLimitHit)
  have hit_round: "min (Math_round (of_int (minInterval s) * (3 / 2))) maxInterval
      = min ((3 * minInterval s + 1) div 2) maxInterval"
    by (simp add: Math_round_three_halves)
  have suc: "minInterval (onRequestSuccess s) =
      (if 3 \<le> successfulRequests s + 1 \<and> baseInterval < minInterval s
       then max ((3 * minInterval s + 2) div 4) baseInterval else minInterval s)"
    by (rule minInterval_onRequestSuccess)
  have suc_round: "max (Math_round (of_int (minInterval s) * (3 / 4))) baseInterval
      = max ((3 * minInterval s + 2) div 4) baseInterval"
    by (simp add: Math_round_three_quarters)
  have c1: "minInterval s \<le> minInterval (onRateLimitHit now s)"
    and c2: "minInterval (onRateLimitHit now s) \<le> maxInterval"
    using hit_bounds [OF inv] by (simp_all only: hit)
  have c3: "minInterval (onRequestSuccess s) \<le> minInterval s"
    and c4: "baseInterval \<le> minInterval (onRequestSuccess s)"
    using success_bounds [OF inv(1)] inv(1) by (simp_all add: suc)
  have c5: "successfulRequests (onRateLimitHit now s) = 0"
    by (rule successfulRequests_onRateLimitHit)
  have c6: "baseInterval = 1000" "maxInterval = 10000"
    by (simp_all add: baseInterval_def maxInterval_def)
  have c7: "successfulRequests (onRequestSuccess s) =
      (if 3 \<le> successfulRequests s + 1 \<and> baseInterval < minInterval s
       then 0 else successfulRequests s + 1)"
    by (rule successfulRequests_onRequestSuccess)
  show ?thesis
    unfolding Let_def s_def [symmetric]
    using inv c1 c2 c3 c4 c5 c6 c7 hit suc by (simp only: hit_round suc_round simp_thms)
qed

text \<open>
  C9: one call at a time, started in queue order.  In every state the limiter can reach
  from its initial state, \<open>activeRequests\<close> is 0 or 1 and equals the number of calls whose
  \<open>execute()\<close> is pending; and the calls started so far, followed by the calls still in
  the queue, are exactly the calls pushed so far in the order of their \<open>queue.push\<close>:
  every call starts after all calls pushed before it.  A re-queued call is a new push at
  the tail of the queue.
\<close>

theorem single_slot_and_fifo_start_order:
  "(let s = run evs new_GlobalRateLimiter in
      maxConcurrentRequests = 1 \<and>
      0 \<le> activeRequests s \<and> activeRequests s \<le> maxConcurrentRequests \<and>
      activeRequests s = int (length (running s)) \<and>
      pushed s = started s @ queue s \<and>
      queue (retry_callback now request s) = queue s @ [request\<lparr>req_timestamp := now\<rparr>] \<and>
      queue (addToQueue now requestId s) = queue s @ [\<lparr>req_id = requestId, req_timestamp = now\<rparr>])"
proof -
  define s where "s = run evs new_GlobalRateLimiter"
  have inv: "queue_inv s" using queue_inv_run [of evs] by (simp add: s_def)
  then have a: "activeRequests s = int (length (running s))" and b: "length (running s) \<le> 1"
    and c: "pushed s = started s @ queue s"
    by (simp_all add: queue_inv_def)
  from a b have d: "0 \<le> activeRequests s" "activeRequests s \<le> maxConcurrentRequests"
    by (simp_all add: maxConcurrentRequests_def)
  have e: "queue (retry_callback now request s) = queue s @ [request\<lparr>req_timestamp := now\<rparr>]"
    by (simp add: retry_callback_def Let_def)
  have f: "queue (addToQueue now requestId s) = queue s @ [\<lparr>req_id = requestId, req_timestamp = now\<rparr>]"
    by (simp add: addToQueue_def Let_def)
  show ?thesis
    unfolding Let_def s_def [symmetric]
    using a c d e f by (simp add: maxConcurrentRequests_def)
qed

text \<open>
  C1, at a call that is rejected with HTTP 429 every time: \<open>processNextRequest\<close> starts
  every attempt with \<open>retryCount = 0\<close>, so in every reachable state each pending attempt
  has retry count 0 and each pending re-queue has the delay \<open>calculateRetryDelay 0 = 2000\<close>;
  and after any number \<open>n\<close> of rejected attempts the call has been started \<open>n\<close> times, is
  back in the queue, and its promise has been neither rejected nor resolved.
\<close>

theorem rate_limited_call_retried_without_bound:
  "(let s = run evs new_GlobalRateLimiter;
        s' = run ((ta, AddToQueue ''r'') # concat (replicate n (rate_limited_cycle t)))
               new_GlobalRateLimiter in
      map snd (running s) = replicate (length (running s)) 0 \<and>
      map snd (retryTimers s) = replicate (length (retryTimers s)) 2000 \<and>
      map req_id (queue s') = [''r''] \<and> length (started s') = n \<and> rateLimitHits s' = n \<and>
      rejected s' = [] \<and> resolved s' = [])"
  using queue_inv_run [of evs] waiting_again_cycles [of ta n t]
  by (simp add: Let_def queue_inv_def waiting_again_def)

section \<open>Properties of the result cache\<close>

lemma set_Map_set_keys: "fst ` set (Map_set k v m) = insert k (fst ` set m)"
  by (induction m) auto

lemma length_Map_set:
  "length (Map_set k v m) = (if k \<in> fst ` set m then length m else Suc (length m))"
  by (induction m) auto


lemma Map_set_fresh: "k \<notin> fst ` set m \<Longrightarrow> Map_set k v m = m @ [(k, v)]"
  by (induction m) auto

lemma Map_get_Map_set: "Map_get (Map_set k v m) k' = (if k' = k then Some v else Map_get m k')"
  by (induction m) (auto simp add: Map_get_def)



lemma Map_delete_absent: "k \<notin> fst ` set m \<Longrightarrow> Map_delete k m = m"
  by (induction m) (auto simp add: Map_delete_def)

lemma Map_delete_oldest:
  "distinct (map fst (p # ps)) \<Longrightarrow> Map_delete (fst p) (p # ps) = ps"
  using Map_delete_absent [of "fst p" ps] by (simp add: Map_delete_def)

lemma setCachedResult_eq:
  assumes "distinct (Map_keys c)"
  shows "setCachedResult now cacheKey dat c =
           Map_set cacheKey \<lparr>data = dat, timestamp = now, ttl = CACHE_TTL\<rparr>
             (if length c \<ge> MAX_CACHE_ENTRIES then tl c else c)"
proof (cases c)
  case Nil
  then show ?thesis by (simp add: setCachedResult_def Map_keys_def)
next
  case (Cons p ps)
  then have "Map_delete (fst p) c = ps"
    using assms Map_delete_oldest [of p ps] by (simp add: Map_keys_def)
  then show ?thesis using Cons by (simp add: setCachedResult_def Map_keys_def)
qed

lemma MAX_CACHE_ENTRIES_pos: "0 < MAX_CACHE_ENTRIES"
  by (simp add: MAX_CACHE_ENTRIES_def)








lemma filled_cache_keys: "Map_keys (filled_cache n) = map (\<lambda>i. replicate (Suc i) CHR ''k'') [0..<n]"
  by (simp add: filled_cache_def Map_keys_def comp_def)

lemma distinct_filled_cache: "distinct (Map_keys (filled_cache n))"
  by (simp add: filled_cache_keys distinct_map inj_on_def)

lemma length_filled_cache: "length (filled_cache n) = n"
  by (simp add: filled_cache_def)

lemma filled_cache_member: "i < n \<Longrightarrow> replicate (Suc i) CHR ''k'' \<in> set (Map_keys (filled_cache n))"
  by (simp add: filled_cache_keys del: replicate_Suc)

lemma hd_filled_cache: "0 < n \<Longrightarrow> hd (Map_keys (filled_cache n)) = ''k''"
  by (simp add: filled_cache_keys upt_conv_Cons)


text \<open>
  C10: an overwrite at capacity.  When the cache holds \<open>MAX_CACHE_ENTRIES\<close> entries and
  the key of a \<open>setCachedResult\<close> call is one of them, the call still deletes the
  oldest-inserted entry before it sets the key.  If that oldest key is another key, it
  is gone afterwards, every other key is kept, and the cache has one entry less than
  before, although setting the key alone would not have grown it.
\<close>

theorem overwrite_at_capacity_evicts_oldest:
  assumes "distinct (Map_keys c)" and "length c = MAX_CACHE_ENTRIES"
    and "cacheKey \<in> set (Map_keys c)"
  shows "setCachedResult now cacheKey dat c =
           Map_set cacheKey \<lparr>data = dat, timestamp = now, ttl = CACHE_TTL\<rparr>
             (Map_delete (hd (Map_keys c)) c) \<and>
         Map_delete (hd (Map_keys c)) c = tl c \<and>
         (hd (Map_keys c) \<noteq> cacheKey \<longrightarrow>
            hd (Map_keys c) \<notin> set (Map_keys (setCachedResult now cacheKey dat c)) \<and>
            set (Map_keys (setCachedResult now cacheKey dat c)) = set (Map_keys c) - {hd (Map_keys c)} \<and>
            length (setCachedResult now cacheKey dat c) = MAX_CACHE_ENTRIES - 1)"
proof -
  from assms(2) MAX_CACHE_ENTRIES_pos obtain p ps where c: "c = p # ps" by (cases c) auto
  have del: "Map_delete (hd (Map_keys c)) c = tl c"
    using Map_delete_oldest [of p ps] assms(1) c by (simp add: Map_keys_def)
  have eq: "setCachedResult now cacheKey dat c =
      Map_set cacheKey \<lparr>data = dat, timestamp = now, ttl = CACHE_TTL\<rparr> (tl c)"
    using setCachedResult_eq [OF assms(1), of now cacheKey dat] assms(2) by simp
  have notin: "fst p \<notin> fst ` set ps" using assms(1) c by (simp add: Map_keys_def)
  have rest: "hd (Map_keys c) \<notin> set (Map_keys (setCachedResult now cacheKey dat c)) \<and>
      set (Map_keys (setCachedResult now cacheKey dat c)) = set (Map_keys c) - {hd (Map_keys c)} \<and>
      length (setCachedResult now cacheKey dat c) = MAX_CACHE_ENTRIES - 1"
    if ne: "hd (Map_keys c) \<noteq> cacheKey"
  proof -
    have in_tl: "cacheKey \<in> fst ` set ps" using assms(3) ne c by (auto simp add: Map_keys_def)
    have keys: "fst ` set (Map_set cacheKey \<lparr>data = dat, timestamp = now, ttl = CACHE_TTL\<rparr> ps) = fst ` set ps"
      using in_tl by (auto simp add: set_Map_set_keys)
    have len: "length (Map_set cacheKey \<lparr>data = dat, timestamp = now, ttl = CACHE_TTL\<rparr> ps) = length ps"
      using in_tl by (simp add: length_Map_set)
    show ?thesis using eq keys len notin assms(2) c by (auto simp add: Map_keys_def)
  qed
  show ?thesis using del eq rest by (simp only: simp_thms) blast
qed

text \<open>The cache filled with the keys \<open>k\<close>, \<open>kk\<close>, ... and an overwrite of \<open>kk\<close>: the
  entry of \<open>k\<close> is evicted.\<close>

theorem overwrite_at_capacity_evicts_oldest_witness:
  "hd (Map_keys (filled_cache MAX_CACHE_ENTRIES)) = ''k'' \<and>
   ''k'' \<notin> set (Map_keys (setCachedResult 1 ''kk'' None (filled_cache MAX_CACHE_ENTRIES))) \<and>
   length (filled_cache MAX_CACHE_ENTRIES) = MAX_CACHE_ENTRIES \<and>
   length (setCachedResult 1 ''kk'' None (filled_cache MAX_CACHE_ENTRIES)) = MAX_CACHE_ENTRIES - 1"
proof -
  have h: "hd (Map_keys (filled_cache MAX_CACHE_ENTRIES)) = ''k''"
    using hd_filled_cache [OF MAX_CACHE_ENTRIES_pos] .
  have m: "''kk'' \<in> set (Map_keys (filled_cache MAX_CACHE_ENTRIES))"
    using filled_cache_member [of 1 MAX_CACHE_ENTRIES] by (simp add: MAX_CACHE_ENTRIES_def)
  have n: "hd (Map_keys (filled_cache MAX_CACHE_ENTRIES)) \<noteq> ''kk''" using h by simp
  note t = overwrite_at_capacity_evicts_oldest
      [OF distinct_filled_cache length_filled_cache m, of 1 None]
  from t n have a: "hd (Map_keys (filled_cache MAX_CACHE_ENTRIES))
      \<notin> set (Map_keys (setCachedResult 1 ''kk'' None (filled_cache MAX_CACHE_ENTRIES)))"
    by blast
  from t n have b: "length (setCachedResult 1 ''kk'' None (filled_cache MAX_CACHE_ENTRIES))
      = MAX_CACHE_ENTRIES - 1"
    by blast
  show ?thesis using a b h length_filled_cache [of MAX_CACHE_ENTRIES] by (simp only: simp_thms)
qed

section \<open>Properties of the time filter\<close>

text \<open>
  C5 as stated fails.  With the latest-arrival bound 06:00, the connection that arrives at
  01:00 on the day of its departure is retained, and the overnight connection that
  arrives at 01:00, the same time of day, is dropped.
\<close>

theorem overnight_within_bound_dropped:
  "istNachtverbindung
     \<lparr>getFullYear = 2025, getMonth = 6, getDate = 26, getHours = 23, getMinutes = 0, getSeconds = 0\<rparr>
     \<lparr>getFullYear = 2025, getMonth = 6, getDate = 27, getHours = 1, getMinutes = 0, getSeconds = 0\<rparr> \<and>
   filterByTime [day_train] Unset (Clock 6 0) = [day_train] \<and>
   filterByTime [night_train] Unset (Clock 6 0) = []"
  by (simp add: istNachtverbindung_def Date_1970_def filter_Date_def filterByTime_def
      filterByTime_keeps_def night_train_def day_train_def truthy_filter_def Date_less_def
      getTime_less_def)

text \<open>
  C5 as amended: \<open>filterByTime\<close> places the arrival of an overnight connection on
  1970-01-02, 24 hours after its time of day, and compares it with the bound placed on
  1970-01-01.  So for every latest-arrival bound \<open>hh:mm\<close> that is a time of day, an
  overnight connection with a valid arrival time is never retained, whatever its arrival
  time of day and whatever the earliest-departure bound.
\<close>

theorem overnight_never_retained:
  assumes "verbindungsAbschnitte interval = Some abschnitte" and "abschnitte \<noteq> []"
    and "istNachtverbindung (ab_abfahrtsZeitpunkt (hd abschnitte)) (ab_ankunftsZeitpunkt (last abschnitte))"
    and "getHours (ab_ankunftsZeitpunkt (last abschnitte)) < 24"
    and "getMinutes (ab_ankunftsZeitpunkt (last abschnitte)) < 60"
    and "hh < 24" and "mm < 60"
  shows "\<not> filterByTime_keeps earliest (Clock hh mm) interval \<and>
         interval \<notin> set (filterByTime intervals earliest (Clock hh mm))"
proof -
  obtain a as where c: "abschnitte = a # as" using assms(2) by (cases abschnitte) auto
  have lt: "Date_less (filter_Date (Clock hh mm))
      (Date_1970 1 (getHours (ab_ankunftsZeitpunkt (last abschnitte)))
                   (getMinutes (ab_ankunftsZeitpunkt (last abschnitte))))"
    using assms(4-7) by (simp add: Date_less_def filter_Date_def Date_1970_def)
  have k: "\<not> filterByTime_keeps earliest (Clock hh mm) interval"
    using assms(1,3) lt unfolding c
    by (simp add: filterByTime_keeps_def truthy_filter_def Let_def)
  then show ?thesis by (simp add: filterByTime_def truthy_filter_def)
qed

theorem overnight_never_retained_witness:
  "night_train \<notin> set (filterByTime [night_train] Unset (Clock 6 0)) \<and>
   night_train \<notin> set (filterByTime [night_train] Unset (Clock 23 59))"
proof -
  have n: "istNachtverbindung
      (ab_abfahrtsZeitpunkt (hd (the (verbindungsAbschnitte night_train))))
      (ab_ankunftsZeitpunkt (last (the (verbindungsAbschnitte night_train))))"
    by (simp add: night_train_def istNachtverbindung_def)
  have a: "verbindungsAbschnitte night_train = Some (the (verbindungsAbschnitte night_train))"
    and b: "the (verbindungsAbschnitte night_train) \<noteq> []"
    and c: "getHours (ab_ankunftsZeitpunkt (last (the (verbindungsAbschnitte night_train)))) < 24"
    and d: "getMinutes (ab_ankunftsZeitpunkt (last (the (verbindungsAbschnitte night_train)))) < 60"
    by (simp_all add: night_train_def)
  have "night_train \<notin> set (filterByTime [night_train] Unset (Clock 6 0))"
    using overnight_never_retained [OF a b n c d, of 6 0 Unset "[night_train]"] by simp
  moreover have "night_train \<notin> set (filterByTime [night_train] Unset (Clock 23 59))"
    using overnight_never_retained [OF a b n c d, of 23 59 Unset "[night_train]"] by simp
  ultimately show ?thesis by simp
qed


section \<open>Properties of the cache keys and of getBestPrice\<close>

lemma cacheKey_ignores_time_filters:
  "getBestPrice_cacheKey (cfg\<lparr>abfahrtAb := a, ankunftBis := b\<rparr>) = getBestPrice_cacheKey cfg"
  by (simp add: getBestPrice_cacheKey_def)

lemma getBestPrice_hit:
  assumes "fst (getCachedResult now (getBestPrice_cacheKey cfg) c) = Some cachedResult"
  shows "getBestPrice now later cfg api c =
           (\<lparr>result = Some (getBestPrice_cached (formatDateKey (anfrageDatum cfg))
                              (abfahrtAb cfg) (ankunftBis cfg) cachedResult),
             wasApiCall = False\<rparr>, c)"
proof -
  from assms have "getCachedResult now (getBestPrice_cacheKey cfg) c = (Some cachedResult, c)"
    by (auto simp add: getCachedResult_def Let_def split: option.splits if_splits)
  then show ?thesis by (simp add: getBestPrice_def Let_def)
qed

lemma getCachedResult_after_setCachedResult:
  assumes "now2 - later \<le> CACHE_TTL"
  shows "getCachedResult now2 cacheKey (setCachedResult later cacheKey dat c) =
           (dat, setCachedResult later cacheKey dat c)"
  using assms by (simp add: getCachedResult_def setCachedResult_def Let_def Map_get_Map_set)

lemma getBestPrice_miss_Intervalle:
  assumes "wasApiCall (fst (getBestPrice now later cfg (Intervalle ivs) c))"
  shows "snd (getBestPrice now later cfg (Intervalle ivs) c) =
           setCachedResult later (getBestPrice_cacheKey cfg)
             (Some [(formatDateKey (anfrageDatum cfg),
                     \<lparr>preis = 0, info = [], abfahrtsZeitpunkt = None, ankunftsZeitpunkt = None,
                      allIntervals = Some (sort_key iv_preis (allIntervalsForCache ivs))\<rparr>)])
             (snd (getCachedResult now (getBestPrice_cacheKey cfg) c))
         \<and> result (fst (getBestPrice now later cfg (Intervalle ivs) c)) =
             Some (getBestPrice_fresh (formatDateKey (anfrageDatum cfg)) (abfahrtAb cfg) (ankunftBis cfg) ivs)"
  using assms
  by (cases "getCachedResult now (getBestPrice_cacheKey cfg) c")
     (auto simp add: getBestPrice_def Let_def split: option.splits)

lemma getBestPrice_miss_of_empty_cache:
  "wasApiCall (fst (getBestPrice now later cfg (Intervalle ivs) []))"
  by (simp add: getBestPrice_def getCachedResult_def Map_get_def Let_def)

text \<open>
  C2: the time filters are not part of the cache key, and a cached day is served from
  the cache under every time filter.  The key that \<open>getBestPrice\<close> computes does not
  change when \<open>abfahrtAb\<close> and \<open>ankunftBis\<close> are replaced.  So when the cache holds an
  entry that has not expired under the key of a query, \<open>getBestPrice\<close> for the same query
  with any other time filters \<open>a\<close> and \<open>b\<close> returns the cached data filtered by \<open>a\<close> and
  \<open>b\<close> with \<open>wasApiCall = false\<close>, leaves the cache as it is, and does not depend on what
  the upstream would answer.
\<close>

theorem cached_day_serves_all_time_filters:
  assumes "fst (getCachedResult now (getBestPrice_cacheKey cfg) c) = Some cachedResult"
  shows "getBestPrice_cacheKey (cfg\<lparr>abfahrtAb := a, ankunftBis := b\<rparr>) = getBestPrice_cacheKey cfg \<and>
         getBestPrice now later (cfg\<lparr>abfahrtAb := a, ankunftBis := b\<rparr>) api c =
           (\<lparr>result = Some (getBestPrice_cached (formatDateKey (anfrageDatum cfg)) a b cachedResult),
             wasApiCall = False\<rparr>, c)"
proof -
  have k: "getBestPrice_cacheKey (cfg\<lparr>abfahrtAb := a, ankunftBis := b\<rparr>) = getBestPrice_cacheKey cfg"
    by (rule cacheKey_ignores_time_filters)
  have "fst (getCachedResult now (getBestPrice_cacheKey (cfg\<lparr>abfahrtAb := a, ankunftBis := b\<rparr>)) c)
      = Some cachedResult"
    using assms by (simp only: k)
  from getBestPrice_hit [OF this, of later api] k show ?thesis by simp
qed

text \<open>A day fetched without time filters is then served from the cache with the
  filters 08:00 and 20:00.\<close>

theorem cached_day_serves_all_time_filters_witness:
  "wasApiCall (fst (getBestPrice 0 5 (day_config Berlin Hamburg (example_body (JBool True)) july_26)
                      (Intervalle [day_train]) [])) \<and>
   \<not> wasApiCall (fst (getBestPrice 1000 1005
       ((day_config Berlin Hamburg (example_body (JBool True)) july_26)
          \<lparr>abfahrtAb := Clock 8 0, ankunftBis := Clock 20 0\<rparr>)
       (ApiRejected None)
       (snd (getBestPrice 0 5 (day_config Berlin Hamburg (example_body (JBool True)) july_26)
               (Intervalle [day_train]) []))))"
proof -
  define cfg where "cfg = day_config Berlin Hamburg (example_body (JBool True)) july_26"
  define c1 where "c1 = snd (getBestPrice 0 5 cfg (Intervalle [day_train]) [])"
  have miss: "wasApiCall (fst (getBestPrice 0 5 cfg (Intervalle [day_train]) []))"
    by (rule getBestPrice_miss_of_empty_cache)
  have ttl: "(1000::int) - 5 \<le> CACHE_TTL" by (simp add: CACHE_TTL_def)
  have "\<exists>dat. c1 = setCachedResult 5 (getBestPrice_cacheKey cfg) (Some dat)
      (snd (getCachedResult 0 (getBestPrice_cacheKey cfg) []))"
    using getBestPrice_miss_Intervalle [OF miss] unfolding c1_def by blast
  then obtain dat where "fst (getCachedResult 1000 (getBestPrice_cacheKey cfg) c1) = Some dat"
    using getCachedResult_after_setCachedResult [OF ttl] by auto
  from cached_day_serves_all_time_filters
    [OF this, where a = "Clock 8 0" and b = "Clock 20 0" and later = 1005 and api = "ApiRejected None"]
  have "\<not> wasApiCall (fst (getBestPrice 1000 1005
      (cfg\<lparr>abfahrtAb := Clock 8 0, ankunftBis := Clock 20 0\<rparr>) (ApiRejected None) c1))"
    by simp
  with miss show ?thesis unfolding c1_def cfg_def by simp
qed

text \<open>For a body whose two flags are booleans the probe key and the key of
  \<open>getBestPrice\<close> are equal.\<close>

lemma probe_key_matches_for_booleans:
  assumes "body_schnelleVerbindungen body = JBool f" and "body_nurDeutschlandTicketVerbindungen body = JBool g"
  shows "probe_cacheKey startStation zielStation body d =
         getBestPrice_cacheKey (day_config startStation zielStation body d)"
  using assms by (simp add: probe_cacheKey_def getBestPrice_cacheKey_def day_config_def strict_eq_def)

text \<open>
  C7, at a request whose fast-connection flag arrives as a string: the handler's probe
  key tests the flag against \<open>true\<close> and the string \<open>true\<close>; the handler converts the flag
  for \<open>getBestPrice\<close> by testing it against \<open>true\<close> and the string \<open>1\<close>, and \<open>getBestPrice\<close>
  builds its key from the converted flag.  For the flag \<open>"true"\<close> and for the flag \<open>"1"\<close>
  the two keys of the same day and the same body differ; for the boolean \<open>true\<close> they
  are equal.
\<close>

theorem probe_key_differs_for_string_flags:
  "probe_cacheKey Berlin Hamburg (example_body (JString ''true'')) july_26 \<noteq>
     getBestPrice_cacheKey (day_config Berlin Hamburg (example_body (JString ''true'')) july_26) \<and>
   probe_cacheKey Berlin Hamburg (example_body (JString ''1'')) july_26 \<noteq>
     getBestPrice_cacheKey (day_config Berlin Hamburg (example_body (JString ''1'')) july_26) \<and>
   probe_cacheKey Berlin Hamburg (example_body (JBool True)) july_26 =
     getBestPrice_cacheKey (day_config Berlin Hamburg (example_body (JBool True)) july_26)"
proof -
  have "probe_cacheKey Berlin Hamburg (example_body (JBool True)) july_26 =
      getBestPrice_cacheKey (day_config Berlin Hamburg (example_body (JBool True)) july_26)"
    by (rule probe_key_matches_for_booleans [where f = True and g = False])
       (simp_all add: example_body_def)
  moreover have "probe_cacheKey Berlin Hamburg (example_body (JString ''true'')) july_26 \<noteq>
      getBestPrice_cacheKey (day_config Berlin Hamburg (example_body (JString ''true'')) july_26)"
    by (simp add: probe_cacheKey_def getBestPrice_cacheKey_def day_config_def example_body_def
        generateCacheKey_def JSON_stringify_def strict_eq_def js_or_def)
  moreover have "probe_cacheKey Berlin Hamburg (example_body (JString ''1'')) july_26 \<noteq>
      getBestPrice_cacheKey (day_config Berlin Hamburg (example_body (JString ''1'')) july_26)"
    by (simp add: probe_cacheKey_def getBestPrice_cacheKey_def day_config_def example_body_def
        generateCacheKey_def JSON_stringify_def strict_eq_def js_or_def)
  ultimately show ?thesis by simp
qed

lemma two_stops_info:
  "make_info (morning_connection stop) (morning_connection stop) =
     ''26.07.2025, 08:00:00 Berlin Hbf -> 26.07.2025, 10:00:00 '' @ stop"
  by (simp add: make_info_def morning_connection_def toLocaleString_de_def padStart_def digit_char_def
      nat_toString.simps)

lemma two_stops_preise:
  "preise (process_intervals two_stops) =
     [(''26.07.2025, 08:00:00 Berlin Hbf -> 26.07.2025, 10:00:00 Hamburg ZOB 129'', 29)]"
  by (simp add: process_intervals_def process_interval_def two_stops_def two_stops_info
      int_toString_def digit_char_def nat_toString.simps Let_def)

lemma fresh_price:
  assumes "filterByTime ivs ab bis = f # fs" and "preise (process_intervals (f # fs)) = (k, p) # rest"
  shows "map (\<lambda>kv. (fst kv, preis (snd kv))) (getBestPrice_fresh tag ab bis ivs)
           = [(tag, Math_min p (map snd rest))]"
  using assms by (simp add: getBestPrice_fresh_def Let_def)

lemma two_stops_fresh_price:
  "map (\<lambda>kv. (fst kv, preis (snd kv))) (getBestPrice_fresh tag Unset Unset two_stops) = [(tag, 29)]"
proof -
  have f: "filterByTime two_stops Unset Unset = hd two_stops # tl two_stops"
    by (simp add: filterByTime_def truthy_filter_def two_stops_def)
  have p: "preise (process_intervals (hd two_stops # tl two_stops)) =
      (''26.07.2025, 08:00:00 Berlin Hbf -> 26.07.2025, 10:00:00 Hamburg ZOB 129'', 29) # []"
    using two_stops_preise by (simp add: two_stops_def)
  show ?thesis using fresh_price [OF f p, of tag] by (simp add: Math_min_def)
qed

lemma two_stops_allIntervalsForCache:
  "map iv_preis (sort_key iv_preis (allIntervalsForCache two_stops)) = [9, 29]"
  by (simp add: allIntervalsForCache_def List.map_filter_def to_IntervalRecord_def two_stops_def Let_def)

lemma cached_price_Unset:
  assumes "cachedIntervals \<noteq> []"
  shows "map (\<lambda>kv. (fst kv, preis (snd kv)))
           (getBestPrice_cached tag Unset Unset
              [(tag, \<lparr>preis = 0, info = [], abfahrtsZeitpunkt = None, ankunftsZeitpunkt = None,
                      allIntervals = Some cachedIntervals\<rparr>)])
         = [(tag, Math_min (iv_preis (hd cachedIntervals)) (map iv_preis (tl cachedIntervals)))]"
proof -
  obtain x xs where c: "cachedIntervals = x # xs" using assms by (cases cachedIntervals) auto
  show ?thesis
    by (simp add: c getBestPrice_cached_def Map_get_def filterByTime_def truthy_filter_def Let_def
        fi_betrag_def cached_interval_def comp_def)
qed

lemma formatDateKey_july_26: "formatDateKey july_26 = ''2025-07-26''"
  by (simp add: formatDateKey_def july_26_def padStart_def digit_char_def nat_toString.simps)

text \<open>
  C3, at a day whose upstream answer has two intervals with the same times, one for 9 to
  the stop \<open>Hamburg ZOB 12\<close> and one for 29 to the stop \<open>Hamburg ZOB 1\<close>, and no time
  filter: both intervals get the key \<open>... Hamburg ZOB 129\<close> in \<open>preise\<close>, the second
  overwrites the first, and the fresh fetch returns the price 29.  The next request for
  the same day is served from the cache and returns the price 9.
\<close>

theorem fresh_and_cached_price_differ_on_equal_keys:
  "(let cfg = day_config Berlin Hamburg (example_body (JBool True)) july_26;
        fresh = getBestPrice 0 5 cfg (Intervalle two_stops) [];
        cached = getBestPrice 1000 1005 cfg (ApiRejected None) (snd fresh)
    in abfahrtAb cfg = Unset \<and> ankunftBis cfg = Unset \<and>
       wasApiCall (fst fresh) \<and> day_prices (fst fresh) = [(''2025-07-26'', 29)] \<and>
       \<not> wasApiCall (fst cached) \<and> day_prices (fst cached) = [(''2025-07-26'', 9)])"
proof -
  define cfg where "cfg = day_config Berlin Hamburg (example_body (JBool True)) july_26"
  define fresh where "fresh = getBestPrice 0 5 cfg (Intervalle two_stops) []"
  define cached where "cached = getBestPrice 1000 1005 cfg (ApiRejected None) (snd fresh)"
  define full where "full = [(''2025-07-26'',
      \<lparr>preis = 0, info = [], abfahrtsZeitpunkt = None, ankunftsZeitpunkt = None,
       allIntervals = Some (sort_key iv_preis (allIntervalsForCache two_stops))\<rparr>)]"
  have u: "abfahrtAb cfg = Unset" "ankunftBis cfg = Unset"
    and tag: "formatDateKey (anfrageDatum cfg) = ''2025-07-26''"
    by (simp_all add: cfg_def day_config_def example_body_def formatDateKey_july_26)
  have miss: "wasApiCall (fst fresh)"
    unfolding fresh_def by (rule getBestPrice_miss_of_empty_cache)
  note m = getBestPrice_miss_Intervalle [OF miss [unfolded fresh_def]]
  have r1: "result (fst fresh) = Some (getBestPrice_fresh ''2025-07-26'' Unset Unset two_stops)"
    using m by (simp add: fresh_def u tag)
  have p1: "day_prices (fst fresh) = [(''2025-07-26'', 29)]"
    by (simp add: day_prices_def r1 two_stops_fresh_price)
  have c1: "snd fresh = setCachedResult 5 (getBestPrice_cacheKey cfg) (Some full)
      (snd (getCachedResult 0 (getBestPrice_cacheKey cfg) []))"
    using m by (simp add: fresh_def tag full_def)
  have ttl: "(1000::int) - 5 \<le> CACHE_TTL" by (simp add: CACHE_TTL_def)
  have "fst (getCachedResult 1000 (getBestPrice_cacheKey cfg) (snd fresh)) = Some full"
    by (simp add: c1 getCachedResult_after_setCachedResult [OF ttl])
  from getBestPrice_hit [OF this, of 1005 "ApiRejected None"]
  have h: "fst cached = \<lparr>result = Some (getBestPrice_cached ''2025-07-26'' Unset Unset full),
      wasApiCall = False\<rparr>"
    by (simp add: cached_def u tag)
  have ne: "sort_key iv_preis (allIntervalsForCache two_stops) \<noteq> []"
    using two_stops_allIntervalsForCache by auto
  have "map (\<lambda>kv. (fst kv, preis (snd kv))) (getBestPrice_cached ''2025-07-26'' Unset Unset full)
      = [(''2025-07-26'', Math_min (hd (map iv_preis (sort_key iv_preis (allIntervalsForCache two_stops))))
           (tl (map iv_preis (sort_key iv_preis (allIntervalsForCache two_stops)))))]"
    unfolding full_def using cached_price_Unset [OF ne] ne by (simp add: hd_map map_tl)
  then have p2: "day_prices (fst cached) = [(''2025-07-26'', 9)]"
    by (simp add: day_prices_def h two_stops_allIntervalsForCache Math_min_def)
  show ?thesis
    unfolding Let_def cfg_def [symmetric] fresh_def [symmetric] cached_def [symmetric]
    using u miss p1 p2 h by simp
qed

subsection \<open>Where the fresh and the cached path agree\<close>

lemma filterByTime_filter:
  "filterByTime xs ab bis = filter (filterByTime_keeps ab bis) xs"
proof (cases "\<not> truthy_filter ab \<and> \<not> truthy_filter bis")
  case True
  then have "filterByTime_keeps ab bis x" for x
    by (simp add: filterByTime_keeps_def Let_def split: option.split list.split)
  with True show ?thesis by (simp add: filterByTime_def)
next
  case False
  then show ?thesis by (auto simp add: filterByTime_def)
qed

lemma keeps_cached_interval:
  "to_IntervalRecord iv = Some r \<Longrightarrow>
     filterByTime_keeps ab bis (cached_interval r) = filterByTime_keeps ab bis iv"
  by (auto simp add: to_IntervalRecord_def cached_interval_def filterByTime_keeps_def Let_def
      split: option.splits list.splits)

lemma fi_betrag_cached_interval: "fi_betrag (cached_interval r) = iv_preis r"
  by (simp add: fi_betrag_def cached_interval_def)

lemma allIntervalsForCache_Nil: "allIntervalsForCache [] = []"
  by (simp add: allIntervalsForCache_def List.map_filter_def)

lemma allIntervalsForCache_Cons:
  "allIntervalsForCache (iv # ivs) =
     (case to_IntervalRecord iv of
        None \<Rightarrow> allIntervalsForCache ivs
      | Some r \<Rightarrow> r # allIntervalsForCache ivs)"
  by (simp add: allIntervalsForCache_def List.map_filter_def split: option.split)

lemma set_allIntervalsForCache:
  "r \<in> set (allIntervalsForCache ivs) \<longleftrightarrow> (\<exists>iv \<in> set ivs. to_IntervalRecord iv = Some r)"
  by (induction ivs) (auto simp add: allIntervalsForCache_Nil allIntervalsForCache_Cons split: option.splits)

lemma cached_filtered_prices:
  "set (map fi_betrag (filterByTime (map cached_interval (sort_key iv_preis (allIntervalsForCache ivs))) ab bis))
     = iv_preis ` set (allIntervalsForCache (filterByTime ivs ab bis))"
  (is "?L = ?R")
proof -
  have "map fi_betrag (filter (filterByTime_keeps ab bis)
        (map cached_interval (sort_key iv_preis (allIntervalsForCache ivs))))
      = map iv_preis (filter (\<lambda>r. filterByTime_keeps ab bis (cached_interval r))
          (sort_key iv_preis (allIntervalsForCache ivs)))"
    by (simp add: filter_map comp_def fi_betrag_cached_interval)
  then have L: "?L = iv_preis ` {r \<in> set (allIntervalsForCache ivs). filterByTime_keeps ab bis (cached_interval r)}"
    by (simp add: filterByTime_filter)
  have "{r \<in> set (allIntervalsForCache ivs). filterByTime_keeps ab bis (cached_interval r)}
      = set (allIntervalsForCache (filterByTime ivs ab bis))"
  proof (rule set_eqI)
    fix r
    show "r \<in> {r \<in> set (allIntervalsForCache ivs). filterByTime_keeps ab bis (cached_interval r)}
        \<longleftrightarrow> r \<in> set (allIntervalsForCache (filterByTime ivs ab bis))"
      using keeps_cached_interval [of _ r ab bis]
      by (auto simp add: set_allIntervalsForCache filterByTime_filter)
  qed
  with L show ?thesis by simp
qed

lemma process_interval_preise:
  "preise (process_interval st iv) =
     (case to_IntervalRecord iv of
        None \<Rightarrow> preise st
      | Some r \<Rightarrow> Map_set (preise_key r) (iv_preis r) (preise st))"
  by (simp add: process_interval_def to_IntervalRecord_def preise_key_def Let_def
      split: option.split list.split)

lemma foldl_process_interval_preise:
  "preise (foldl process_interval st ivs) =
     foldl (\<lambda>m r. Map_set (preise_key r) (iv_preis r) m) (preise st) (allIntervalsForCache ivs)"
proof (induction ivs arbitrary: st)
  case Nil
  show ?case by (simp add: allIntervalsForCache_Nil)
next
  case (Cons iv ivs)
  show ?case
    by (simp add: Cons.IH process_interval_preise allIntervalsForCache_Cons split: option.split)
qed

lemma set_Map_set_same:
  "(\<And>v'. (k, v') \<in> set m \<Longrightarrow> v' = v) \<Longrightarrow> set (Map_set k v m) = insert (k, v) (set m)"
proof (induction m)
  case Nil
  show ?case by simp
next
  case (Cons p m)
  then have ih: "set (Map_set k v m) = insert (k, v) (set m)" by simp
  show ?case
  proof (cases "fst p = k")
    case True
    with Cons.prems [of "snd p"] have "p = (k, v)" by (cases p) simp
    then show ?thesis by auto
  next
    case False
    with ih show ?thesis by auto
  qed
qed

lemma set_foldl_Map_set:
  assumes "keys_tell_prices (seen @ recs)"
    and "set m = (\<lambda>r. (preise_key r, iv_preis r)) ` set seen"
  shows "set (foldl (\<lambda>m r. Map_set (preise_key r) (iv_preis r) m) m recs)
           = (\<lambda>r. (preise_key r, iv_preis r)) ` set (seen @ recs)"
  using assms
proof (induction recs arbitrary: m seen)
  case Nil
  then show ?case by simp
next
  case (Cons r recs)
  have same: "v' = iv_preis r" if "(preise_key r, v') \<in> set m" for v'
  proof -
    from that Cons.prems(2) obtain x where x: "x \<in> set seen" "preise_key x = preise_key r" "v' = iv_preis x"
      by auto
    with Cons.prems(1) show ?thesis by (auto simp add: keys_tell_prices_def list_all_iff)
  qed
  have s: "set (Map_set (preise_key r) (iv_preis r) m)
      = (\<lambda>r. (preise_key r, iv_preis r)) ` set (seen @ [r])"
    using set_Map_set_same [of "preise_key r" m "iv_preis r"] same Cons.prems(2) by auto
  have k: "keys_tell_prices ((seen @ [r]) @ recs)" using Cons.prems(1) by simp
  from Cons.IH [OF k s] show ?case by simp
qed

lemma preise_values:
  assumes "keys_tell_prices (allIntervalsForCache ivs)"
  shows "snd ` set (preise (process_intervals ivs)) = iv_preis ` set (allIntervalsForCache ivs)"
proof -
  have "set (preise (process_intervals ivs))
      = (\<lambda>r. (preise_key r, iv_preis r)) ` set (allIntervalsForCache ivs)"
    using set_foldl_Map_set [of "[]" "allIntervalsForCache ivs" "[]"] assms
    by (simp add: process_intervals_def foldl_process_interval_preise)
  then show ?thesis by (simp add: image_image)
qed

lemma Math_min_Min: "Math_min x xs = Min (set (x # xs))"
proof -
  have "foldl min x xs = fold min xs x"
    by (simp add: foldl_conv_fold min.commute)
  then show ?thesis by (simp add: Math_min_def Min.set_eq_fold del: set_simps)
qed

lemma cached_path_price:
  "map (\<lambda>kv. (fst kv, preis (snd kv)))
     (getBestPrice_cached tag ab bis
        [(tag, \<lparr>preis = 0, info = [], abfahrtsZeitpunkt = None, ankunftsZeitpunkt = None,
                allIntervals = Some cachedIntervals\<rparr>)])
   = [(tag, case filterByTime (map cached_interval cachedIntervals) ab bis of
              [] \<Rightarrow> 0
            | fi # fis \<Rightarrow> Math_min (fi_betrag fi) (map fi_betrag fis))]"
  by (simp add: getBestPrice_cached_def Map_get_def Let_def split: list.split)

lemma fresh_path_price:
  "map (\<lambda>kv. (fst kv, preis (snd kv))) (getBestPrice_fresh tag ab bis ivs)
   = [(tag, case filterByTime ivs ab bis of
              [] \<Rightarrow> 0
            | iv # rest \<Rightarrow>
                (case preise (process_intervals (iv # rest)) of
                   [] \<Rightarrow> 0
                 | kp # others \<Rightarrow> Math_min (snd kp) (map snd others)))]"
  by (simp add: getBestPrice_fresh_def Let_def no_price_result_def split: list.split prod.split)

text \<open>
  When no two priced intervals that pass the time filter have the same \<open>preise\<close> key
  and different prices, the fresh path and the cache-hit path return the same price for
  the day, under every time filter.
\<close>

lemma fresh_and_cached_price_agree:
  assumes "keys_tell_prices (allIntervalsForCache (filterByTime ivs ab bis))"
  shows "map (\<lambda>kv. (fst kv, preis (snd kv))) (getBestPrice_fresh tag ab bis ivs) =
         map (\<lambda>kv. (fst kv, preis (snd kv)))
           (getBestPrice_cached tag ab bis
              [(tag, \<lparr>preis = 0, info = [], abfahrtsZeitpunkt = None, ankunftsZeitpunkt = None,
                      allIntervals = Some (sort_key iv_preis (allIntervalsForCache ivs))\<rparr>)])"
proof -
  define F where "F = filterByTime ivs ab bis"
  define R where "R = allIntervalsForCache F"
  define FI where "FI = filterByTime (map cached_interval (sort_key iv_preis (allIntervalsForCache ivs))) ab bis"
  define P where "P = preise (process_intervals F)"
  have a: "set (map fi_betrag FI) = iv_preis ` set R"
    unfolding FI_def R_def F_def by (rule cached_filtered_prices)
  have b: "snd ` set P = iv_preis ` set R"
    unfolding P_def R_def using assms by (simp add: preise_values F_def)
  have fresh: "(case F of [] \<Rightarrow> 0 | iv # rest \<Rightarrow>
        (case preise (process_intervals (iv # rest)) of [] \<Rightarrow> 0
         | kp # others \<Rightarrow> Math_min (snd kp) (map snd others)))
      = (case P of [] \<Rightarrow> 0 | kp # others \<Rightarrow> Math_min (snd kp) (map snd others))"
    by (cases F) (simp_all add: P_def process_intervals_def)
  have "(case P of [] \<Rightarrow> 0 | kp # others \<Rightarrow> Math_min (snd kp) (map snd others))
      = (case FI of [] \<Rightarrow> 0 | fi # fis \<Rightarrow> Math_min (fi_betrag fi) (map fi_betrag fis))"
  proof (cases "R = []")
    case True
    with a b have "FI = []" "P = []" by simp_all
    then show ?thesis by simp
  next
    case False
    with a b obtain fi fis kp others where s: "FI = fi # fis" "P = kp # others"
      by (cases FI; cases P) auto
    have "Math_min (snd kp) (map snd others) = Min (snd ` set P)"
      by (simp add: Math_min_Min s)
    moreover have "Math_min (fi_betrag fi) (map fi_betrag fis) = Min (set (map fi_betrag FI))"
      by (simp add: Math_min_Min s)
    ultimately show ?thesis using a b s by simp
  qed
  with fresh show ?thesis
    by (simp only: fresh_path_price cached_path_price F_def [symmetric] FI_def [symmetric])
qed

text \<open>The error result of a rejected call is stored with \<open>cache.set\<close>, not through
  \<open>setCachedResult\<close>: it adds an entry without the capacity check.\<close>

lemma error_result_stored_without_capacity_check:
  assumes "getBestPrice_cacheKey cfg \<notin> fst ` set c"
  shows "length (snd (getBestPrice now later cfg (ApiRejected err) c)) = Suc (length c)"
proof -
  from assms have "Map_get c (getBestPrice_cacheKey cfg) = None"
    by (simp add: Map_get_def map_of_eq_None_iff)
  then show ?thesis
    using assms by (simp add: getBestPrice_def getCachedResult_def Let_def Map_set_fresh)
qed

section \<open>Properties of the POST handler\<close>

lemma div10_less: "x < 100 \<Longrightarrow> x div 10 < (10::nat)"
  by arith

lemma digit_char_0: "digit_char 0 = CHR ''0''"
  by (simp add: digit_char_def)

lemma pad2: "n < 100 \<Longrightarrow> padStart 2 CHR ''0'' (nat_toString n) = [digit_char (n div 10), digit_char (n mod 10)]"
proof (cases "n < 10")
  case True
  then show ?thesis
    by (subst nat_toString.simps) (simp add: padStart_def digit_char_0)
next
  case False
  assume "n < 100"
  then have "n div 10 < 10" by (rule div10_less)
  then have "nat_toString (n div 10) = [digit_char (n div 10)]"
    by (subst nat_toString.simps) simp
  with False show ?thesis
    by (subst nat_toString.simps) (simp add: padStart_def)
qed

lemma pad2_inj:
  assumes "a < 100" and "b < 100"
    and "padStart 2 CHR ''0'' (nat_toString a) = padStart 2 CHR ''0'' (nat_toString b)"
  shows "a = b"
proof -
  from assms have "digit_char (a div 10) = digit_char (b div 10)"
    and "digit_char (a mod 10) = digit_char (b mod 10)"
    by (simp_all add: pad2)
  then have "(a div 10) mod 10 = (b div 10) mod 10" and "a mod 10 = b mod 10"
    by (auto dest: digit_char_inj)
  moreover have "a div 10 < 10" "b div 10 < 10" using assms(1,2) by (simp_all add: div10_less)
  ultimately have "a div 10 = b div 10" "a mod 10 = b mod 10" by simp_all
  then show ?thesis by (metis div_mult_mod_eq)
qed








































end
